theory Spec2Isabelle
  imports Complex_Main "HOL-Library.Signed_Division"
begin

section \<open>Data model (include/common.h, include/controller.h, include/model.h)\<close>

text \<open>
  Conventions of the embedding.
  \<^item> A C \<^verbatim>\<open>float\<close> or \<^verbatim>\<open>double\<close> is a \<^typ>\<open>real\<close>: rounding, infinities and NaN are
    outside the model.
  \<^item> A C \<^verbatim>\<open>int\<close> is an \<^typ>\<open>int\<close>: signed overflow is undefined in C and outside the
    model. \<^verbatim>\<open>%\<close> on ints is the truncating \<open>smod\<close>.
  \<^item> A fixed-size array is a list whose length is the size of the array; a loop over
    the whole array is a recursion over the list.
  \<^item> A NUL-terminated \<^verbatim>\<open>char\<close> buffer is the \<^typ>\<open>string\<close> before the NUL;
    \<^verbatim>\<open>snprintf(buf, n, ...)\<close> keeps the first \<open>n - 1\<close> characters.
  \<^item> \<^verbatim>\<open>exit(0)\<close> is the outcome \<open>Exited\<close>.
\<close>

definition GAME_WIDTH :: int where "GAME_WIDTH = 100"
definition GAME_HEIGHT :: int where "GAME_HEIGHT = 50"
definition MAX_ENEMIES :: nat where "MAX_ENEMIES = 60"
definition MAX_BULLETS :: nat where "MAX_BULLETS = 100"

definition PLAYER_SPEED :: real where "PLAYER_SPEED = 40"
definition BULLET_SPEED :: real where "BULLET_SPEED = 60"
definition ENEMY_SPEED_BASE :: real where "ENEMY_SPEED_BASE = 10"
definition ENEMY_DROP_HEIGHT :: real where "ENEMY_DROP_HEIGHT = 2"
definition PLAYER_WIDTH :: int where "PLAYER_WIDTH = 5"
definition PLAYER_HEIGHT :: int where "PLAYER_HEIGHT = 3"
definition ENEMY_WIDTH :: int where "ENEMY_WIDTH = 4"
definition ENEMY_HEIGHT :: int where "ENEMY_HEIGHT = 3"
definition BULLET_WIDTH :: int where "BULLET_WIDTH = 1"
definition BULLET_HEIGHT :: int where "BULLET_HEIGHT = 1"
definition MAX_SAVE_FILES :: int where "MAX_SAVE_FILES = 10"
definition MAX_FILENAME_LEN :: nat where "MAX_FILENAME_LEN = 32"
definition MAX_SHIELDS :: nat where "MAX_SHIELDS = 4"
definition SHIELD_MAX_HEALTH :: int where "SHIELD_MAX_HEALTH = 10"
definition MAX_LIVES_NORMAL :: int where "MAX_LIVES_NORMAL = 3"
definition UFO_SPEED :: real where "UFO_SPEED = 10"
definition UFO_WIDTH :: int where "UFO_WIDTH = 4"
definition UFO_HEIGHT :: int where "UFO_HEIGHT = 2"

datatype GameCommand =
  CMD_NONE | CMD_PAUSE | CMD_EXIT
  | CMD_MOVE_LEFT | CMD_MOVE_RIGHT | CMD_SHOOT
  | CMD_UP | CMD_DOWN | CMD_LEFT | CMD_RIGHT | CMD_RETURN | CMD_BACKSPACE

datatype EntityType =
  ENTITY_PLAYER | ENTITY_BULLET_PLAYER | ENTITY_BULLET_ENEMY
  | ENTITY_ENEMY_TYPE_1 | ENTITY_ENEMY_TYPE_2 | ENTITY_ENEMY_TYPE_3 | ENTITY_UFO

datatype GameStateEnum =
  STATE_MENU | STATE_PLAYING | STATE_PAUSED | STATE_TUTORIAL | STATE_GAME_OVER
  | STATE_VICTORY | STATE_CONFIRM_QUIT | STATE_SAVE_INPUT | STATE_LOAD_MENU
  | STATE_OVERWRITE_CONFIRM | STATE_SAVE_SELECT | STATE_SAVE_SUCCESS

text \<open>The fields of the three entity structs carry a prefix, since \<^verbatim>\<open>Entity\<close>, \<^verbatim>\<open>Ufo\<close> and
  \<^verbatim>\<open>Shield\<close> share field names: \<open>e_\<close> for \<^verbatim>\<open>Entity\<close>, \<open>u_\<close> for \<^verbatim>\<open>Ufo\<close>, \<open>s_\<close> for
  \<^verbatim>\<open>Shield\<close>.\<close>

record Entity =
  e_x :: real
  e_y :: real
  e_width :: int
  e_height :: int
  e_dx :: real
  e_dy :: real
  e_active :: bool
  e_type :: EntityType
  e_shoot_timer :: real
  e_anim_timer :: real
  e_anim_frame :: int
  e_exploding :: bool
  e_explode_timer :: real

record Ufo =
  u_x :: real
  u_y :: real
  u_width :: real
  u_height :: real
  u_dx :: real
  u_active :: bool
  u_hasSpawnedThisLevel :: bool
  u_exploding :: bool
  u_explode_timer :: real
  u_type :: EntityType

record Shield =
  s_x :: real
  s_y :: real
  s_width :: real
  s_height :: real
  s_health :: int
  s_active :: bool

record SoundState =
  play_shoot :: bool
  play_invader_killed :: bool
  play_player_explosion :: bool
  play_select_sound :: bool
  play_game_over :: bool
  play_level_up :: bool
  play_beat :: bool
  beat_index :: int
  ufo_loopING :: bool

record GameModel =
  state :: GameStateEnum
  previous_state :: GameStateEnum
  player :: Entity
  enemies :: "Entity list"
  bullets :: "Entity list"
  ufo :: Ufo
  shields :: "Shield list"
  score :: int
  lives :: int
  level :: int
  normal_max_lives :: int
  enemy_speed_mult :: real
  direction_enemies :: int
  drop_direction :: int
  drop_step_count :: int
  animation_frame :: int
  animation_timer :: real
  game_over_timer :: real
  hit_timer :: real
  save_success_timer :: real
  menu_selection :: int
  input_buffer :: string
  save_files :: "string list"
  save_file_count :: int
  current_filename :: string
  pending_quit :: bool
  sounds :: SoundState
  volume :: int
  is_muted :: bool

text \<open>All-zero values, as \<^verbatim>\<open>calloc\<close> and \<^verbatim>\<open>memset(.., 0, ..)\<close> produce them. The enum
  constant with value 0 is the first one of each enumeration.\<close>

definition zero_entity :: Entity where
  "zero_entity = \<lparr>e_x = 0, e_y = 0, e_width = 0, e_height = 0, e_dx = 0, e_dy = 0,
     e_active = False, e_type = ENTITY_PLAYER, e_shoot_timer = 0, e_anim_timer = 0,
     e_anim_frame = 0, e_exploding = False, e_explode_timer = 0\<rparr>"

definition zero_ufo :: Ufo where
  "zero_ufo = \<lparr>u_x = 0, u_y = 0, u_width = 0, u_height = 0, u_dx = 0, u_active = False,
     u_hasSpawnedThisLevel = False, u_exploding = False, u_explode_timer = 0,
     u_type = ENTITY_PLAYER\<rparr>"

definition zero_shield :: Shield where
  "zero_shield = \<lparr>s_x = 0, s_y = 0, s_width = 0, s_height = 0, s_health = 0,
     s_active = False\<rparr>"

definition zero_sounds :: SoundState where
  "zero_sounds = \<lparr>play_shoot = False, play_invader_killed = False,
     play_player_explosion = False, play_select_sound = False, play_game_over = False,
     play_level_up = False, play_beat = False, beat_index = 0, ufo_loopING = False\<rparr>"

definition zero_model :: GameModel where
  "zero_model = \<lparr>state = STATE_MENU, previous_state = STATE_MENU, player = zero_entity,
     enemies = replicate MAX_ENEMIES zero_entity, bullets = replicate MAX_BULLETS zero_entity,
     ufo = zero_ufo, shields = replicate MAX_SHIELDS zero_shield, score = 0, lives = 0,
     level = 0, normal_max_lives = 0, enemy_speed_mult = 0, direction_enemies = 0,
     drop_direction = 0, drop_step_count = 0, animation_frame = 0, animation_timer = 0,
     game_over_timer = 0, hit_timer = 0, save_success_timer = 0, menu_selection = 0,
     input_buffer = [], save_files = replicate (nat MAX_SAVE_FILES) [], save_file_count = 0,
     current_filename = [], pending_quit = False, sounds = zero_sounds, volume = 0,
     is_muted = False\<rparr>"

datatype 'a outcome = Exited | Running 'a

section \<open>The save directory\<close>

text \<open>
  A save file is written by one \<^verbatim>\<open>fwrite\<close> of the whole \<^verbatim>\<open>GameModel\<close> and read by one
  \<^verbatim>\<open>fread\<close> of the same size. A file of the directory therefore either begins with a
  full record, the memory image of some model (\<open>Full_record\<close>), or is shorter than one
  record (\<open>Short_file\<close>). \<open>files\<close> maps a path to the file there; \<open>can_write\<close> tells
  whether \<^verbatim>\<open>fopen(path, "wb")\<close> succeeds.
\<close>

datatype file_data = Full_record GameModel | Short_file

record filesystem =
  files :: "string \<rightharpoonup> file_data"
  can_write :: "string \<Rightarrow> bool"

definition snprintf_s :: "nat \<Rightarrow> string \<Rightarrow> string" where
  "snprintf_s n s = take (n - 1) s"

definition save_path :: "string \<Rightarrow> string" where
  "save_path filename = snprintf_s 128 (''sauvegardes/'' @ filename)"

definition save_file_exists :: "filesystem \<Rightarrow> string \<Rightarrow> bool" where
  "save_file_exists fs filename = (files fs (save_path filename) \<noteq> None)"

definition model_save_named :: "GameModel \<Rightarrow> string \<Rightarrow> filesystem \<Rightarrow> filesystem" where
  "model_save_named model filename fs =
     (let path = save_path filename in
      if can_write fs path
      then fs\<lparr>files := (files fs)(path \<mapsto> Full_record model)\<rparr>
      else fs)"

definition model_load_named :: "filesystem \<Rightarrow> GameModel \<Rightarrow> string \<Rightarrow> bool \<times> GameModel" where
  "model_load_named fs model filename =
     (let path = save_path filename in
      case files fs path of
        None \<Rightarrow> (False, model)
      | Some Short_file \<Rightarrow> (False, model)
      | Some (Full_record temp) \<Rightarrow>
          (True, temp\<lparr>state := STATE_PLAYING, hit_timer := 0, sounds := zero_sounds\<rparr>))"


section \<open>Helpers of src/model.c\<close>

text \<open>\<^verbatim>\<open>printf("%d")\<close> of a non-negative number.\<close>

definition digit_char :: "nat \<Rightarrow> char" where
  "digit_char d = ''0123456789'' ! d"

function string_of_nat :: "nat \<Rightarrow> string" where
  "string_of_nat n =
     (if n < 10 then [digit_char n]
      else string_of_nat (n div 10) @ [digit_char (n mod 10)])"
  by pat_completeness auto
termination
  by (relation "measure id") auto

text \<open>\<^verbatim>\<open>strstr(haystack, needle) != NULL\<close>: the needle occurs somewhere in the haystack.\<close>

fun starts_with :: "string \<Rightarrow> string \<Rightarrow> bool" where
  "starts_with s [] = True"
| "starts_with [] (c # cs) = False"
| "starts_with (d # ds) (c # cs) = (d = c \<and> starts_with ds cs)"

fun strstr :: "string \<Rightarrow> string \<Rightarrow> bool" where
  "strstr [] needle = (needle = [])"
| "strstr (c # cs) needle = (starts_with (c # cs) needle \<or> strstr cs needle)"

definition ends_with :: "string \<Rightarrow> string \<Rightarrow> bool" where
  "ends_with s suffix = starts_with (rev s) (rev suffix)"

definition check_collision :: "Entity \<Rightarrow> Entity \<Rightarrow> bool" where
  "check_collision a b =
     (if \<not> e_active a \<or> \<not> e_active b then False
      else (e_x a < e_x b + of_int (e_width b) \<and>
            e_x a + of_int (e_width a) > e_x b \<and>
            e_y a < e_y b + of_int (e_height b) \<and>
            e_y a + of_int (e_height a) > e_y b))"

text \<open>\<^verbatim>\<open>spawn_bullet\<close>: the first inactive slot of the pool is taken; a full pool is left
  as it is.\<close>

fun spawn_in :: "real \<Rightarrow> real \<Rightarrow> real \<Rightarrow> EntityType \<Rightarrow> Entity list \<Rightarrow> Entity list" where
  "spawn_in x y dy t [] = []"
| "spawn_in x y dy t (b # bs) =
     (if \<not> e_active b
      then b\<lparr>e_active := True, e_x := x, e_y := y, e_dx := 0, e_dy := dy,
              e_width := BULLET_WIDTH, e_height := BULLET_HEIGHT, e_type := t,
              e_anim_timer := 0, e_anim_frame := 0\<rparr> # bs
      else b # spawn_in x y dy t bs)"

definition spawn_bullet :: "GameModel \<Rightarrow> real \<Rightarrow> real \<Rightarrow> real \<Rightarrow> EntityType \<Rightarrow> GameModel" where
  "spawn_bullet model x y dy t = model\<lparr>bullets := spawn_in x y dy t (bullets model)\<rparr>"

text \<open>\<^verbatim>\<open>generate_unique_filename\<close>: the loop \<^verbatim>\<open>while (true)\<close> has no bound, so the model is
  a partial function; \<open>None\<close> stands for a loop that never ends. The counter is a C
  \<^verbatim>\<open>int\<close> that starts at 1 and only grows.\<close>

definition candidate_name :: "string \<Rightarrow> nat \<Rightarrow> string" where
  "candidate_name base_name i =
     snprintf_s 128 (base_name @ ''('' @ string_of_nat i @ '').dat'')"

partial_function (option) probe_from :: "filesystem \<Rightarrow> string \<Rightarrow> nat \<Rightarrow> string option" where
  "probe_from fs base_name i =
     (if \<not> save_file_exists fs (candidate_name base_name i)
      then Some (candidate_name base_name i)
      else probe_from fs base_name (i + 1))"

definition generate_unique_filename :: "filesystem \<Rightarrow> string \<Rightarrow> string option" where
  "generate_unique_filename fs base_name = probe_from fs base_name 1"

section \<open>Initialisation\<close>

definition formation_enemy :: "nat \<Rightarrow> nat \<Rightarrow> Entity" where
  "formation_enemy row col =
     zero_entity\<lparr>e_active := True, e_width := ENEMY_WIDTH, e_height := ENEMY_HEIGHT,
       e_x := of_int (5 + int col * (ENEMY_WIDTH + 2)),
       e_y := of_int (7 + int row * (ENEMY_HEIGHT + 2)),
       e_type := (if row = 0 then ENTITY_ENEMY_TYPE_3
                  else if row < 3 then ENTITY_ENEMY_TYPE_2
                  else ENTITY_ENEMY_TYPE_1)\<rparr>"

text \<open>The nested loop fills the slots \<open>idx = 11 * row + col\<close> for 5 rows of 11 columns, in
  this order, and leaves the slots from 55 on as they are.\<close>

definition formation :: "Entity list" where
  "formation = concat (map (\<lambda>row. map (\<lambda>col. formation_enemy row col) [0..<11]) [0..<5])"

definition init_enemies :: "GameModel \<Rightarrow> GameModel" where
  "init_enemies model =
     model\<lparr>enemies := formation @ drop 55 (enemies model),
       enemy_speed_mult := 1, direction_enemies := 1, drop_direction := 1,
       drop_step_count := 0,
       ufo := (ufo model)\<lparr>u_active := False, u_hasSpawnedThisLevel := False, u_y := 4\<rparr>\<rparr>"

definition init_shield :: "nat \<Rightarrow> Shield" where
  "init_shield i =
     \<lparr>s_x = (of_int GAME_WIDTH / (of_nat MAX_SHIELDS + 1)) * (of_nat i + 1) - 8 / 2,
      s_y = of_int (GAME_HEIGHT - PLAYER_HEIGHT - 9),
      s_width = 8, s_height = 6, s_health = SHIELD_MAX_HEALTH, s_active = True\<rparr>"

definition init_shields :: "GameModel \<Rightarrow> GameModel" where
  "init_shields model = model\<lparr>shields := map init_shield [0..<MAX_SHIELDS]\<rparr>"

definition model_init :: GameModel where
  "model_init =
     init_shields (init_enemies (zero_model\<lparr>state := STATE_MENU, lives := 3,
       normal_max_lives := MAX_LIVES_NORMAL, level := 1, volume := 30,
       player := zero_entity\<lparr>e_active := True, e_type := ENTITY_PLAYER,
         e_width := PLAYER_WIDTH, e_height := PLAYER_HEIGHT,
         e_x := of_int (GAME_WIDTH - PLAYER_WIDTH) / 2,
         e_y := of_int (GAME_HEIGHT - PLAYER_HEIGHT - 1)\<rparr>\<rparr>))"

definition reset_game :: "GameModel \<Rightarrow> GameModel" where
  "reset_game model =
     (let m1 = model\<lparr>score := 0, lives := 3, level := 1, hit_timer := 0,
                 enemy_speed_mult := 1, direction_enemies := 1, drop_direction := 1,
                 drop_step_count := 0,
                 bullets := map (\<lambda>b. zero_entity) (bullets model),
                 ufo := (ufo model)\<lparr>u_active := False, u_hasSpawnedThisLevel := False\<rparr>,
                 player := (player model)\<lparr>e_x := of_int (GAME_WIDTH - PLAYER_WIDTH) / 2,
                                           e_dx := 0\<rparr>\<rparr>
      in (init_shields (init_enemies m1))\<lparr>state := STATE_PLAYING\<rparr>)"

section \<open>Scanning the save directory\<close>

text \<open>The argument \<open>dirents\<close> is what \<^verbatim>\<open>opendir\<close> and \<^verbatim>\<open>readdir\<close> report for the save
  directory: \<open>None\<close> when it cannot be opened, otherwise the entry names in the order
  \<^verbatim>\<open>readdir\<close> returns them.\<close>

fun scan_entries :: "string list \<Rightarrow> GameModel \<Rightarrow> GameModel" where
  "scan_entries [] model = model"
| "scan_entries (d_name # rest) model =
     (if d_name \<noteq> [] \<and> hd d_name = CHR ''.'' then scan_entries rest model
      else if strstr d_name ''.dat'' then
        (if save_file_count model < MAX_SAVE_FILES
         then scan_entries rest
                (model\<lparr>save_files := (save_files model)
                                        [nat (save_file_count model) := snprintf_s 256 d_name],
                        save_file_count := save_file_count model + 1\<rparr>)
         else scan_entries rest model)
      else scan_entries rest model)"

definition model_scan_saves :: "string list option \<Rightarrow> GameModel \<Rightarrow> GameModel" where
  "model_scan_saves dirents model =
     (let m0 = model\<lparr>save_file_count := 0\<rparr> in
      case dirents of None \<Rightarrow> m0 | Some ds \<Rightarrow> scan_entries ds m0)"


section \<open>Input handling: \<^verbatim>\<open>model_handle_input\<close>\<close>

text \<open>One definition for each state block of \<^verbatim>\<open>model_handle_input\<close>, in the order of the
  source. \<open>select_sound\<close> is the statement
  \<^verbatim>\<open>model->sounds.play_select_sound = true\<close>.\<close>

definition select_sound :: "GameModel \<Rightarrow> GameModel" where
  "select_sound model = model\<lparr>sounds := (sounds model)\<lparr>play_select_sound := True\<rparr>\<rparr>"

definition handle_menu :: "string list option \<Rightarrow> GameModel \<Rightarrow> GameCommand \<Rightarrow> GameModel outcome" where
  "handle_menu dirents model cmd =
     (if cmd = CMD_EXIT then Exited
      else
        let m1 = (if cmd = CMD_UP
                  then model\<lparr>menu_selection :=
                         (if menu_selection model - 1 < 0 then 4 else menu_selection model - 1)\<rparr>
                  else model);
            m2 = (if cmd = CMD_DOWN
                  then m1\<lparr>menu_selection :=
                         (if menu_selection m1 + 1 > 4 then 0 else menu_selection m1 + 1)\<rparr>
                  else m1)
        in
          if menu_selection m2 = 3 then
            let m3 = (if cmd = CMD_LEFT \<or> cmd = CMD_MOVE_LEFT
                      then m2\<lparr>volume := (if volume m2 - 10 < 0 then 0 else volume m2 - 10),
                              is_muted := False\<rparr>
                      else m2);
                m4 = (if cmd = CMD_RIGHT \<or> cmd = CMD_MOVE_RIGHT
                      then m3\<lparr>volume := (if volume m3 + 10 > 100 then 100 else volume m3 + 10),
                              is_muted := False\<rparr>
                      else m3);
                m5 = (if cmd = CMD_SHOOT \<or> cmd = CMD_RETURN
                      then m4\<lparr>is_muted := \<not> is_muted m4\<rparr>
                      else m4)
            in Running m5
          else if cmd = CMD_RETURN \<or> cmd = CMD_SHOOT then
            let m3 = select_sound m2 in
              if menu_selection m3 = 0 then Running (reset_game m3)
              else if menu_selection m3 = 1 then Running (m3\<lparr>state := STATE_TUTORIAL\<rparr>)
              else if menu_selection m3 = 2 then
                (let m4 = model_scan_saves dirents m3 in
                   if save_file_count m4 > 0
                   then Running (m4\<lparr>state := STATE_LOAD_MENU, menu_selection := 0\<rparr>)
                   else Running (m4\<lparr>state := STATE_LOAD_MENU\<rparr>))
              else if menu_selection m3 = 4 then Exited
              else Running m3
          else Running m2)"

definition handle_load_menu :: "filesystem \<Rightarrow> GameModel \<Rightarrow> GameCommand \<Rightarrow> GameModel" where
  "handle_load_menu fs model cmd =
     (if cmd = CMD_EXIT \<or> cmd = CMD_PAUSE
      then model\<lparr>state := STATE_MENU, menu_selection := 2\<rparr>
      else
        let m1 = (if cmd = CMD_UP
                  then model\<lparr>menu_selection :=
                         (if menu_selection model - 1 < 0 then save_file_count model - 1
                          else menu_selection model - 1)\<rparr>
                  else model);
            m2 = (if cmd = CMD_DOWN
                  then m1\<lparr>menu_selection :=
                         (if menu_selection m1 + 1 \<ge> save_file_count m1 then 0
                          else menu_selection m1 + 1)\<rparr>
                  else m1)
        in
          if cmd = CMD_RETURN \<or> cmd = CMD_SHOOT then
            (if save_file_count m2 > 0
             then (let m3 = select_sound m2
                   in snd (model_load_named fs m3 (save_files m3 ! nat (menu_selection m3))))
             else m2)
          else m2)"

definition handle_tutorial :: "GameModel \<Rightarrow> GameCommand \<Rightarrow> GameModel" where
  "handle_tutorial model cmd =
     (if cmd = CMD_EXIT \<or> cmd = CMD_PAUSE \<or> cmd = CMD_RETURN \<or> cmd = CMD_SHOOT
      then (select_sound model)\<lparr>state := STATE_MENU, menu_selection := 1\<rparr>
      else model)"

definition handle_playing :: "GameModel \<Rightarrow> GameCommand \<Rightarrow> GameModel" where
  "handle_playing model cmd =
     (if cmd = CMD_PAUSE
      then model\<lparr>state := STATE_PAUSED, menu_selection := 0\<rparr>
      else
        let m1 = (if cmd = CMD_MOVE_LEFT \<or> cmd = CMD_LEFT
                  then model\<lparr>player := (player model)\<lparr>e_dx := - PLAYER_SPEED\<rparr>\<rparr>
                  else if cmd = CMD_MOVE_RIGHT \<or> cmd = CMD_RIGHT
                  then model\<lparr>player := (player model)\<lparr>e_dx := PLAYER_SPEED\<rparr>\<rparr>
                  else if cmd = CMD_NONE
                  then model\<lparr>player := (player model)\<lparr>e_dx := 0\<rparr>\<rparr>
                  else model)
        in
          if cmd = CMD_SHOOT \<and> e_shoot_timer (player m1) \<le> 0 then
            (let m2 = spawn_bullet m1 (e_x (player m1) + 3 / 2) (e_y (player m1) - 1)
                        (- BULLET_SPEED) ENTITY_BULLET_PLAYER
             in m2\<lparr>player := (player m2)\<lparr>e_shoot_timer := 1 / 2\<rparr>,
                   sounds := (sounds m2)\<lparr>play_shoot := True\<rparr>\<rparr>)
          else m1)"

definition handle_paused :: "string list option \<Rightarrow> GameModel \<Rightarrow> GameCommand \<Rightarrow> GameModel" where
  "handle_paused dirents model cmd =
     (if cmd = CMD_PAUSE then model\<lparr>state := STATE_PLAYING\<rparr>
      else
        let m1 = (if cmd = CMD_UP
                  then model\<lparr>menu_selection :=
                         (if menu_selection model - 1 < 0 then 3 else menu_selection model - 1)\<rparr>
                  else model);
            m2 = (if cmd = CMD_DOWN
                  then m1\<lparr>menu_selection :=
                         (if menu_selection m1 + 1 > 3 then 0 else menu_selection m1 + 1)\<rparr>
                  else m1)
        in
          if menu_selection m2 = 1 then
            let m3 = (if cmd = CMD_LEFT
                      then m2\<lparr>volume := (if volume m2 < 10 then 0 else volume m2 - 10),
                              is_muted := False\<rparr>
                      else m2);
                m4 = (if cmd = CMD_RIGHT
                      then m3\<lparr>volume := (if volume m3 > 90 then 100 else volume m3 + 10),
                              is_muted := False\<rparr>
                      else m3)
            in (if cmd = CMD_SHOOT \<or> cmd = CMD_RETURN
                then m4\<lparr>is_muted := \<not> is_muted m4\<rparr>
                else m4)
          else if cmd = CMD_RETURN \<or> cmd = CMD_SHOOT then
            let m3 = select_sound m2 in
              if menu_selection m3 = 0 then m3\<lparr>state := STATE_PLAYING\<rparr>
              else if menu_selection m3 = 2
              then (model_scan_saves dirents m3)\<lparr>state := STATE_SAVE_SELECT, menu_selection := 0\<rparr>
              else if menu_selection m3 = 3
              then m3\<lparr>previous_state := STATE_PAUSED, state := STATE_CONFIRM_QUIT,
                      menu_selection := 1\<rparr>
              else m3
          else m2)"

definition handle_game_over :: "string list option \<Rightarrow> GameModel \<Rightarrow> GameCommand \<Rightarrow> GameModel outcome" where
  "handle_game_over dirents model cmd =
     (let m1 = (if cmd = CMD_UP
                then model\<lparr>menu_selection :=
                       (if menu_selection model - 1 < 0 then 2 else menu_selection model - 1)\<rparr>
                else model);
          m2 = (if cmd = CMD_DOWN
                then m1\<lparr>menu_selection :=
                       (if menu_selection m1 + 1 > 2 then 0 else menu_selection m1 + 1)\<rparr>
                else m1)
      in
        if cmd = CMD_RETURN \<or> cmd = CMD_SHOOT then
          let m3 = select_sound m2 in
            if menu_selection m3 = 0
            then Running ((model_scan_saves dirents m3)
                            \<lparr>state := STATE_SAVE_SELECT, menu_selection := 0\<rparr>)
            else if menu_selection m3 = 1 then Running (reset_game m3)
            else if menu_selection m3 = 2 then Exited
            else Running m3
        else Running m2)"

text \<open>In \<^verbatim>\<open>STATE_SAVE_SELECT\<close> the name of the chosen file loses its last four characters
  (\<^verbatim>\<open>strlen(f) - 4\<close>); the copy into the 32-byte \<^verbatim>\<open>input_buffer\<close> is not bounded in the
  source, and a longer name is outside the model.\<close>

definition handle_save_select :: "GameModel \<Rightarrow> GameCommand \<Rightarrow> GameModel" where
  "handle_save_select model cmd =
     (if cmd = CMD_PAUSE \<or> cmd = CMD_EXIT then model\<lparr>state := STATE_PAUSED\<rparr>
      else
        let max = save_file_count model;
            m1 = (if cmd = CMD_UP
                  then model\<lparr>menu_selection :=
                         (if menu_selection model - 1 < 0 then max else menu_selection model - 1)\<rparr>
                  else model);
            m2 = (if cmd = CMD_DOWN
                  then m1\<lparr>menu_selection :=
                         (if menu_selection m1 + 1 > max then 0 else menu_selection m1 + 1)\<rparr>
                  else m1)
        in
          if cmd = CMD_RETURN \<or> cmd = CMD_SHOOT then
            let m3 = select_sound m2 in
              if menu_selection m3 = 0
              then m3\<lparr>state := STATE_SAVE_INPUT, input_buffer := []\<rparr>
              else
                let f = save_files m3 ! nat (menu_selection m3 - 1);
                    len = int (length f) - 4;
                    m4 = (if len > 0 then m3\<lparr>input_buffer := take (nat len) f\<rparr> else m3)
                in m4\<lparr>state := STATE_OVERWRITE_CONFIRM, menu_selection := 0\<rparr>
          else m2)"

definition handle_save_input :: "filesystem \<Rightarrow> GameModel \<Rightarrow> GameCommand \<Rightarrow> GameModel \<times> filesystem" where
  "handle_save_input fs model cmd =
     (if cmd = CMD_PAUSE then (model\<lparr>state := STATE_PAUSED\<rparr>, fs)
      else
        let (m1, fs1) =
              (if (cmd = CMD_RETURN \<or> cmd = CMD_SHOOT) \<and> length (input_buffer model) > 0 then
                 let m2 = select_sound model;
                     filename = snprintf_s 64 (input_buffer m2 @ ''.dat'')
                 in if save_file_exists fs filename
                    then (m2\<lparr>state := STATE_OVERWRITE_CONFIRM, menu_selection := 1\<rparr>, fs)
                    else (m2\<lparr>state := STATE_SAVE_SUCCESS, save_success_timer := 2\<rparr>,
                          model_save_named m2 filename fs)
               else (model, fs))
        in
          if cmd = CMD_BACKSPACE
          then (if length (input_buffer m1) > 0
                then (m1\<lparr>input_buffer := butlast (input_buffer m1)\<rparr>, fs1)
                else (m1, fs1))
          else (m1, fs1))"

text \<open>\<^verbatim>\<open>STATE_OVERWRITE_CONFIRM\<close>: the result is \<open>None\<close> when the name search of "keep both"
  never ends.\<close>

definition handle_overwrite_confirm ::
  "filesystem \<Rightarrow> GameModel \<Rightarrow> GameCommand \<Rightarrow> (GameModel \<times> filesystem) option" where
  "handle_overwrite_confirm fs model cmd =
     (if cmd = CMD_LEFT \<or> cmd = CMD_RIGHT \<or> cmd = CMD_UP \<or> cmd = CMD_DOWN
      then Some (model\<lparr>menu_selection := (if menu_selection model = 0 then 1 else 0)\<rparr>, fs)
      else if cmd = CMD_RETURN \<or> cmd = CMD_SHOOT then
        let m1 = select_sound model in
          if menu_selection m1 = 0 then
            let filename = snprintf_s 64 (input_buffer m1 @ ''.dat'')
            in Some (m1\<lparr>state := STATE_SAVE_SUCCESS, save_success_timer := 2\<rparr>,
                     model_save_named m1 filename fs)
          else
            (case generate_unique_filename fs (input_buffer m1) of
               None \<Rightarrow> None
             | Some new_name \<Rightarrow>
                 Some (m1\<lparr>state := STATE_SAVE_SUCCESS, save_success_timer := 2\<rparr>,
                       model_save_named m1 new_name fs))
      else if cmd = CMD_PAUSE then Some (model\<lparr>state := STATE_SAVE_INPUT\<rparr>, fs)
      else Some (model, fs))"

definition handle_confirm_quit :: "string list option \<Rightarrow> GameModel \<Rightarrow> GameCommand \<Rightarrow> GameModel outcome" where
  "handle_confirm_quit dirents model cmd =
     (let m1 = (if cmd = CMD_UP
                then model\<lparr>menu_selection :=
                       (if menu_selection model - 1 < 0 then 2 else menu_selection model - 1)\<rparr>
                else model);
          m2 = (if cmd = CMD_DOWN
                then m1\<lparr>menu_selection :=
                       (if menu_selection m1 + 1 > 2 then 0 else menu_selection m1 + 1)\<rparr>
                else m1)
      in
        if cmd = CMD_RETURN \<or> cmd = CMD_SHOOT then
          let m3 = select_sound m2 in
            if menu_selection m3 = 0 then Exited
            else if menu_selection m3 = 1
            then Running (m3\<lparr>state := (if previous_state m3 = STATE_GAME_OVER
                                        then STATE_GAME_OVER else STATE_PAUSED),
                              menu_selection := 3\<rparr>)
            else if menu_selection m3 = 2
            then Running ((model_scan_saves dirents m3)
                            \<lparr>state := STATE_SAVE_SELECT, menu_selection := 0\<rparr>)
            else Running m3
        else Running m2)"

definition with_fs :: "filesystem \<Rightarrow> GameModel outcome \<Rightarrow> (GameModel \<times> filesystem) outcome option" where
  "with_fs fs r = (case r of Exited \<Rightarrow> Some Exited | Running m \<Rightarrow> Some (Running (m, fs)))"

definition model_handle_input ::
  "string list option \<Rightarrow> filesystem \<Rightarrow> GameModel \<Rightarrow> GameCommand
     \<Rightarrow> (GameModel \<times> filesystem) outcome option" where
  "model_handle_input dirents fs model cmd =
     (if state model = STATE_MENU then with_fs fs (handle_menu dirents model cmd)
      else if state model = STATE_LOAD_MENU
      then with_fs fs (Running (handle_load_menu fs model cmd))
      else if state model = STATE_TUTORIAL
      then with_fs fs (Running (handle_tutorial model cmd))
      else if state model = STATE_PLAYING
      then with_fs fs (Running (handle_playing model cmd))
      else if state model = STATE_PAUSED
      then with_fs fs (Running (handle_paused dirents model cmd))
      else if state model = STATE_GAME_OVER
      then with_fs fs (handle_game_over dirents model cmd)
      else if state model = STATE_SAVE_SELECT
      then with_fs fs (Running (handle_save_select model cmd))
      else if state model = STATE_SAVE_INPUT
      then Some (Running (handle_save_input fs model cmd))
      else if state model = STATE_OVERWRITE_CONFIRM
      then map_option Running (handle_overwrite_confirm fs model cmd)
      else if state model = STATE_CONFIRM_QUIT
      then with_fs fs (handle_confirm_quit dirents model cmd)
      else with_fs fs (Running model))"


section \<open>The simulation step: \<^verbatim>\<open>model_update\<close>\<close>

text \<open>\<^verbatim>\<open>rand()\<close> reads the next value of a stream of non-negative numbers; the stream
  is threaded through the step.\<close>

type_synonym rng = "nat \<Rightarrow> nat"

definition rand :: "rng \<Rightarrow> nat \<times> rng" where
  "rand r = (r 0, \<lambda>n. r (Suc n))"

subsection \<open>B. Timers\<close>

definition update_timers :: "real \<Rightarrow> GameModel \<Rightarrow> GameModel" where
  "update_timers dt model =
     (let m1 = (if e_shoot_timer (player model) > 0
                then model\<lparr>player := (player model)
                         \<lparr>e_shoot_timer := e_shoot_timer (player model) - dt\<rparr>\<rparr>
                else model);
          m2 = (if hit_timer m1 > 0 then m1\<lparr>hit_timer := hit_timer m1 - dt\<rparr> else m1);
          beat0 = 1 / 2 - of_int (level m2) * (5 / 100);
          beat = (if beat0 < 5 / 100 then 5 / 100 else beat0);
          m3 = m2\<lparr>animation_timer := animation_timer m2 + dt\<rparr>
      in if animation_timer m3 \<ge> beat
         then m3\<lparr>animation_frame := (if animation_frame m3 = 0 then 1 else 0),
                 animation_timer := 0,
                 sounds := (sounds m3)\<lparr>play_beat := True,
                             beat_index := (beat_index (sounds m3) + 1) smod 4\<rparr>\<rparr>
         else m3)"

subsection \<open>C. Player\<close>

definition update_player :: "real \<Rightarrow> GameModel \<Rightarrow> GameModel" where
  "update_player dt model =
     (if e_active (player model) then
        let x1 = e_x (player model) + e_dx (player model) * dt;
            x2 = (if x1 < 0 then 0 else x1);
            x3 = (if x2 > of_int (GAME_WIDTH - PLAYER_WIDTH)
                  then of_int (GAME_WIDTH - PLAYER_WIDTH) else x2)
        in model\<lparr>player := (player model)\<lparr>e_x := x3\<rparr>\<rparr>
      else model)"

subsection \<open>D. Bonus flyer\<close>

definition spawn_ufo :: "rng \<Rightarrow> GameModel \<Rightarrow> GameModel \<times> rng" where
  "spawn_ufo r model =
     (let u1 = (ufo model)\<lparr>u_exploding := False, u_explode_timer := 0, u_active := True,
                 u_hasSpawnedThisLevel := True, u_type := ENTITY_UFO,
                 u_width := of_int UFO_WIDTH, u_height := of_int UFO_HEIGHT, u_y := 4\<rparr>;
          (v, r1) = rand r
      in if v mod 2 = 0
         then (model\<lparr>ufo := u1\<lparr>u_x := - of_int UFO_WIDTH, u_dx := UFO_SPEED\<rparr>\<rparr>, r1)
         else (model\<lparr>ufo := u1\<lparr>u_x := of_int GAME_WIDTH, u_dx := - UFO_SPEED\<rparr>\<rparr>, r1))"

definition update_ufo :: "real \<Rightarrow> rng \<Rightarrow> GameModel \<Rightarrow> GameModel \<times> rng" where
  "update_ufo dt r model =
     (if u_active (ufo model) then
        let m1 = model\<lparr>sounds := (sounds model)\<lparr>ufo_loopING := \<not> u_exploding (ufo model)\<rparr>\<rparr>
        in if u_exploding (ufo m1) then
             let u1 = (ufo m1)\<lparr>u_explode_timer := u_explode_timer (ufo m1) - dt\<rparr>
             in (m1\<lparr>ufo := (if u_explode_timer u1 \<le> 0 then u1\<lparr>u_active := False\<rparr> else u1)\<rparr>, r)
           else
             let u1 = (ufo m1)\<lparr>u_x := u_x (ufo m1) + u_dx (ufo m1) * dt\<rparr>
             in (m1\<lparr>ufo := (if (u_dx u1 > 0 \<and> u_x u1 > of_int GAME_WIDTH) \<or>
                                (u_dx u1 < 0 \<and> u_x u1 < - of_int UFO_WIDTH)
                             then u1\<lparr>u_active := False\<rparr> else u1)\<rparr>, r)
      else
        let m1 = model\<lparr>sounds := (sounds model)\<lparr>ufo_loopING := False\<rparr>\<rparr>;
            enemies_alive = list_ex e_active (enemies m1)
        in if \<not> u_hasSpawnedThisLevel (ufo m1) \<and> enemies_alive then
             (let (v, r1) = rand r
              in if v mod 500 = 0 then spawn_ufo r1 m1 else (m1, r1))
           else (m1, r))"

subsection \<open>E. Enemies\<close>

definition touches_edge :: "int \<Rightarrow> Entity \<Rightarrow> bool" where
  "touches_edge dir e =
     ((e_x e \<le> 0 \<and> dir = - 1) \<or>
      (e_x e \<ge> of_int (GAME_WIDTH - ENEMY_WIDTH) \<and> dir = 1))"

text \<open>The first loop over the enemies: the new slots, the counter \<^verbatim>\<open>active_enemies\<close> and
  the flag \<^verbatim>\<open>touch_edge\<close>.\<close>

fun scan_enemies :: "real \<Rightarrow> int \<Rightarrow> Entity list \<Rightarrow> Entity list \<times> int \<times> bool" where
  "scan_enemies dt dir [] = ([], 0, False)"
| "scan_enemies dt dir (e # es) =
     (let (es', n, t) = scan_enemies dt dir es in
        if \<not> e_active e then (e # es', n, t)
        else if e_exploding e then
          (let e1 = e\<lparr>e_explode_timer := e_explode_timer e - dt\<rparr>
           in ((if e_explode_timer e1 \<le> 0 then e1\<lparr>e_active := False\<rparr> else e1) # es', n, t))
        else (e # es', n + 1, t \<or> touches_edge dir e))"

definition move_enemies :: "real \<Rightarrow> bool \<Rightarrow> GameModel \<Rightarrow> GameModel" where
  "move_enemies dt touch_edge model =
     (if touch_edge then
        let m1 = model\<lparr>direction_enemies := direction_enemies model * (- 1)\<rparr>;
            dy = (if drop_direction m1 = 1 then ENEMY_DROP_HEIGHT else - ENEMY_DROP_HEIGHT);
            m2 = (if drop_direction m1 = 1 then
                    (let m' = m1\<lparr>drop_step_count := drop_step_count m1 + 1\<rparr>
                     in if drop_step_count m' \<ge> 3 then m'\<lparr>drop_direction := - 1\<rparr> else m')
                  else
                    (let m' = m1\<lparr>drop_step_count := drop_step_count m1 - 1\<rparr>
                     in if drop_step_count m' \<le> 0 then m'\<lparr>drop_direction := 1\<rparr> else m'))
        in m2\<lparr>enemies :=
                map (\<lambda>e. if e_active e \<and> \<not> e_exploding e
                          then e\<lparr>e_y := e_y e + dy,
                                 e_x := e_x e + of_int (direction_enemies m2) * 2\<rparr>
                          else e) (enemies m2)\<rparr>
      else
        let spd = ENEMY_SPEED_BASE * enemy_speed_mult model * of_int (direction_enemies model)
        in model\<lparr>enemies :=
                   map (\<lambda>e. if e_active e \<and> \<not> e_exploding e
                             then e\<lparr>e_x := e_x e + spd * dt\<rparr> else e) (enemies model)\<rparr>)"

fun enemy_fire_tries :: "nat \<Rightarrow> rng \<Rightarrow> GameModel \<Rightarrow> GameModel \<times> rng" where
  "enemy_fire_tries 0 r model = (model, r)"
| "enemy_fire_tries (Suc k) r model =
     (let (v, r1) = rand r;
          idx = v mod MAX_ENEMIES;
          e = enemies model ! idx
      in if e_active e \<and> \<not> e_exploding e
         then (spawn_bullet model (e_x e + of_int ENEMY_WIDTH / 2)
                 (e_y e + of_int ENEMY_HEIGHT) (BULLET_SPEED * (6 / 10)) ENTITY_BULLET_ENEMY, r1)
         else enemy_fire_tries k r1 model)"

definition enemy_fire :: "rng \<Rightarrow> GameModel \<Rightarrow> GameModel \<times> rng" where
  "enemy_fire r model =
     (let (v, r1) = rand r
      in if int (v mod 100) < level model * 2 then enemy_fire_tries 10 r1 model
         else (model, r1))"

subsection \<open>F. Bullets and collisions\<close>

definition shield_overlap :: "Entity \<Rightarrow> Shield \<Rightarrow> bool" where
  "shield_overlap b s =
     (e_x b < s_x s + s_width s \<and> e_x b + of_int (e_width b) > s_x s \<and>
      e_y b < s_y s + s_height s \<and> e_y b + of_int (e_height b) > s_y s)"

definition damage_shield :: "Shield \<Rightarrow> Shield" where
  "damage_shield s =
     (let s1 = s\<lparr>s_health := s_health s - 1\<rparr>
      in if s_health s1 \<le> 0 then s1\<lparr>s_active := False\<rparr> else s1)"

text \<open>The loop over the shields: \<open>Some\<close> of the new shields when the bullet hit one
  (\<^verbatim>\<open>hit_shield\<close>), \<open>None\<close> otherwise.\<close>

fun hit_shields :: "Entity \<Rightarrow> Shield list \<Rightarrow> Shield list option" where
  "hit_shields b [] = None"
| "hit_shields b (s # ss) =
     (if s_active s \<and> shield_overlap b s then Some (damage_shield s # ss)
      else map_option (\<lambda>ss'. s # ss') (hit_shields b ss))"

definition ufo_overlap :: "Entity \<Rightarrow> Ufo \<Rightarrow> bool" where
  "ufo_overlap b u =
     (e_x b < u_x u + u_width u \<and> e_x b + of_int (e_width b) > u_x u \<and>
      e_y b < u_y u + u_height u \<and> e_y b + of_int (e_height b) > u_y u)"

definition enemy_points :: "Entity \<Rightarrow> int" where
  "enemy_points e =
     (if e_type e = ENTITY_ENEMY_TYPE_1 then 10
      else if e_type e = ENTITY_ENEMY_TYPE_2 then 20 else 30)"

fun hit_enemies :: "Entity \<Rightarrow> Entity list \<Rightarrow> (Entity list \<times> int) option" where
  "hit_enemies b [] = None"
| "hit_enemies b (e # es) =
     (if e_active e \<and> \<not> e_exploding e \<and> check_collision b e
      then Some (e\<lparr>e_exploding := True, e_explode_timer := 2 / 10\<rparr> # es, enemy_points e)
      else map_option (\<lambda>(es', pts). (e # es', pts)) (hit_enemies b es))"

text \<open>The part of the loop body after the shields, for a bullet that is not the
  player's: the test against the player.\<close>

definition bullet_vs_player :: "Entity \<Rightarrow> GameModel \<Rightarrow> Entity \<times> GameModel" where
  "bullet_vs_player b model =
     (if e_active (player model) \<and> hit_timer model \<le> 0 \<and> check_collision b (player model) then
        let m1 = model\<lparr>lives := lives model - 1, hit_timer := 2,
                   sounds := (sounds model)\<lparr>play_player_explosion := True\<rparr>\<rparr>
        in (b\<lparr>e_active := False\<rparr>,
            if lives m1 \<le> 0
            then m1\<lparr>state := STATE_GAME_OVER,
                    sounds := (sounds m1)\<lparr>play_game_over := True\<rparr>,
                    menu_selection := 0, game_over_timer := 0\<rparr>
            else m1)
      else (b, model))"

definition bullet_vs_targets :: "Entity \<Rightarrow> GameModel \<Rightarrow> Entity \<times> GameModel" where
  "bullet_vs_targets b model =
     (if u_active (ufo model) \<and> \<not> u_exploding (ufo model) \<and> ufo_overlap b (ufo model) then
        (b\<lparr>e_active := False\<rparr>,
         model\<lparr>ufo := (ufo model)\<lparr>u_exploding := True, u_explode_timer := 1 / 2\<rparr>,
               score := score model + 100, lives := lives model + 1,
               sounds := (sounds model)\<lparr>play_invader_killed := True\<rparr>\<rparr>)
      else
        (case hit_enemies b (enemies model) of
           Some (es, pts) \<Rightarrow>
             (b\<lparr>e_active := False\<rparr>,
              model\<lparr>enemies := es, score := score model + pts,
                    sounds := (sounds model)\<lparr>play_invader_killed := True\<rparr>\<rparr>)
         | None \<Rightarrow> (b, model)))"

text \<open>The movement of one bullet, before any test.\<close>

definition move_bullet :: "real \<Rightarrow> Entity \<Rightarrow> Entity" where
  "move_bullet dt b =
     (let b1 = b\<lparr>e_y := e_y b + e_dy b * dt, e_anim_timer := e_anim_timer b + dt\<rparr>
      in if e_anim_timer b1 > 1 / 10
         then b1\<lparr>e_anim_timer := 0, e_anim_frame := (e_anim_frame b1 + 1) smod 4\<rparr>
         else b1)"

text \<open>One iteration of the loop over the bullets: the slot \<open>b\<close> and the rest of the
  model, which the body reads and writes.\<close>

definition bullet_step :: "real \<Rightarrow> Entity \<Rightarrow> GameModel \<Rightarrow> Entity \<times> GameModel" where
  "bullet_step dt b model =
     (if \<not> e_active b then (b, model)
      else
        let b1 = move_bullet dt b
        in if e_y b1 < - 10 \<or> e_y b1 > of_int GAME_HEIGHT then (b1\<lparr>e_active := False\<rparr>, model)
           else
             (case hit_shields b1 (shields model) of
                Some ss \<Rightarrow> (b1\<lparr>e_active := False\<rparr>, model\<lparr>shields := ss\<rparr>)
              | None \<Rightarrow>
                  if e_type b1 = ENTITY_BULLET_PLAYER then bullet_vs_targets b1 model
                  else bullet_vs_player b1 model))"

fun bullets_loop :: "real \<Rightarrow> Entity list \<Rightarrow> GameModel \<Rightarrow> Entity list \<times> GameModel" where
  "bullets_loop dt [] model = ([], model)"
| "bullets_loop dt (b # bs) model =
     (let (b', m1) = bullet_step dt b model;
          (bs', m2) = bullets_loop dt bs m1
      in (b' # bs', m2))"

subsection \<open>The whole step\<close>

text \<open>The state of the model when the step decides about the level: after the timers,
  the player, the flyer and the first loop over the enemies.\<close>

definition before_level_check :: "real \<Rightarrow> rng \<Rightarrow> GameModel \<Rightarrow> (GameModel \<times> int \<times> bool) \<times> rng" where
  "before_level_check dt r model =
     (let m1 = update_player dt (update_timers dt model);
          (m2, r2) = update_ufo dt r m1;
          (es, active_enemies, touch_edge) =
             scan_enemies dt (direction_enemies m2) (enemies m2)
      in ((m2\<lparr>enemies := es\<rparr>, active_enemies, touch_edge), r2))"

definition next_level :: "GameModel \<Rightarrow> GameModel" where
  "next_level model =
     init_enemies (model\<lparr>level := level model + 1,
                         sounds := (sounds model)\<lparr>play_level_up := True\<rparr>\<rparr>)"

definition after_level_check :: "real \<Rightarrow> bool \<Rightarrow> rng \<Rightarrow> GameModel \<Rightarrow> GameModel \<times> rng" where
  "after_level_check dt touch_edge r model =
     (let m4 = move_enemies dt touch_edge model;
          (m5, r5) = enemy_fire r m4;
          (bs, m6) = bullets_loop dt (bullets m5) m5
      in (m6\<lparr>bullets := bs\<rparr>, r5))"

definition playing_step :: "real \<Rightarrow> rng \<Rightarrow> GameModel \<Rightarrow> GameModel \<times> rng" where
  "playing_step dt r model =
     (let ((m3, active_enemies, touch_edge), r2) = before_level_check dt r model
      in if active_enemies = 0 \<and> \<not> u_active (ufo m3) then (next_level m3, r2)
         else after_level_check dt touch_edge r2 m3)"

definition model_update :: "real \<Rightarrow> rng \<Rightarrow> GameModel \<Rightarrow> (GameModel \<times> rng) outcome" where
  "model_update dt r model =
     (if state model = STATE_SAVE_SUCCESS then
        (let m1 = model\<lparr>save_success_timer := save_success_timer model - dt\<rparr>
         in if save_success_timer m1 \<le> 0 then Exited else Running (m1, r))
      else if state model = STATE_GAME_OVER
      then Running (model\<lparr>game_over_timer := game_over_timer model + dt\<rparr>, r)
      else if state model \<noteq> STATE_PLAYING then Running (model, r)
      else Running (playing_step dt r model))"

text \<open>A run of simulation steps, one time slice each; it stops when a step exits.\<close>

fun run_steps :: "real list \<Rightarrow> rng \<Rightarrow> GameModel \<Rightarrow> (GameModel \<times> rng) outcome" where
  "run_steps [] r model = Running (model, r)"
| "run_steps (dt # dts) r model =
     (case model_update dt r model of
        Exited \<Rightarrow> Exited
      | Running (m1, r1) \<Rightarrow> run_steps dts r1 m1)"


section \<open>Concrete inputs\<close>

text \<open>A save directory without files, and one whose only file is too short.\<close>

definition empty_fs :: filesystem where
  "empty_fs = \<lparr>files = Map.empty, can_write = (\<lambda>path. True)\<rparr>"

definition short_fs :: filesystem where
  "short_fs = \<lparr>files = [''sauvegardes/Run.dat'' \<mapsto> Short_file], can_write = (\<lambda>path. True)\<rparr>"

text \<open>The load menu as the main menu opens it when the scan found nothing (the cursor
  stays on the entry 2 of the main menu), and a load menu with three files.\<close>

definition no_saves_menu :: GameModel where
  "no_saves_menu = model_init\<lparr>state := STATE_LOAD_MENU, menu_selection := 2\<rparr>"

definition three_saves_menu :: GameModel where
  "three_saves_menu =
     model_init\<lparr>state := STATE_LOAD_MENU, menu_selection := 0, save_file_count := 3,
       save_files := [''a.dat'', ''b.dat'', ''c.dat'', [], [], [], [], [], [], []]\<rparr>"

text \<open>A game in play whose bullet pool has no free slot.\<close>

definition full_pool_game :: GameModel where
  "full_pool_game =
     (reset_game model_init)\<lparr>bullets := replicate MAX_BULLETS (zero_entity\<lparr>e_active := True\<rparr>)\<rparr>"

text \<open>A save directory that holds \<^verbatim>\<open>Run.dat\<close> and \<^verbatim>\<open>Run(1).dat\<close>, and the overwrite
  prompt for the name \<^verbatim>\<open>Run\<close> with the cursor on "keep both".\<close>

definition run_fs :: filesystem where
  "run_fs = \<lparr>files = [''sauvegardes/Run.dat'' \<mapsto> Short_file,
                       ''sauvegardes/Run(1).dat'' \<mapsto> Short_file],
             can_write = (\<lambda>path. True)\<rparr>"

definition keep_both_game :: GameModel where
  "keep_both_game =
     (reset_game model_init)\<lparr>state := STATE_OVERWRITE_CONFIRM, menu_selection := 1,
                               input_buffer := ''Run''\<rparr>"

text \<open>A game saved from the save dialogue, in the middle of a wave: the rhythm of the
  march stands at its third beat and two sounds are requested.\<close>

definition saved_game :: GameModel where
  "saved_game =
     (reset_game model_init)\<lparr>state := STATE_SAVE_INPUT, previous_state := STATE_PAUSED,
        score := 120, lives := 2, level := 3, hit_timer := 3 / 2, menu_selection := 1,
        input_buffer := ''Run'', volume := 70, is_muted := True,
        sounds := zero_sounds\<lparr>play_select_sound := True, play_beat := True,
                               beat_index := 2\<rparr>\<rparr>"

text \<open>A stream of random numbers under which no flyer spawns and no enemy fires.\<close>

definition quiet_rng :: rng where
  "quiet_rng = (\<lambda>n. 50)"

text \<open>A new game with one enemy bullet about to enter the leftmost shield.\<close>

definition falling_bullet :: Entity where
  "falling_bullet = zero_entity\<lparr>e_active := True, e_x := 20, e_y := 75 / 2, e_dy := 36,
     e_width := BULLET_WIDTH, e_height := BULLET_HEIGHT, e_type := ENTITY_BULLET_ENEMY\<rparr>"

definition shield_game :: GameModel where
  "shield_game =
     (reset_game model_init)\<lparr>bullets := falling_bullet # replicate 99 zero_entity\<rparr>"

text \<open>The same game with the leftmost shield worn down to its last point of health.\<close>

definition last_hit_game :: GameModel where
  "last_hit_game =
     shield_game\<lparr>shields := (shields shield_game)
                    [0 := (shields shield_game ! 0)\<lparr>s_health := 1\<rparr>]\<rparr>"

text \<open>A new game with one enemy bullet on the player, with and without invulnerability.\<close>

definition overlapping_bullet :: Entity where
  "overlapping_bullet = zero_entity\<lparr>e_active := True, e_x := 49, e_y := 46, e_dy := 36,
     e_width := BULLET_WIDTH, e_height := BULLET_HEIGHT, e_type := ENTITY_BULLET_ENEMY\<rparr>"

definition invulnerable_game :: GameModel where
  "invulnerable_game =
     (reset_game model_init)\<lparr>hit_timer := 1,
        bullets := overlapping_bullet # replicate 99 zero_entity\<rparr>"

definition vulnerable_game :: GameModel where
  "vulnerable_game =
     (reset_game model_init)\<lparr>bullets := overlapping_bullet # replicate 99 zero_entity\<rparr>"

text \<open>A new game whose player stands at 47 and moves right, and a new game whose
  enemies are all gone.\<close>

definition moving_game :: GameModel where
  "moving_game =
     (reset_game model_init)\<lparr>player := (player (reset_game model_init))
                                            \<lparr>e_x := 47, e_dx := PLAYER_SPEED\<rparr>\<rparr>"

definition cleared_game :: GameModel where
  "cleared_game = (reset_game model_init)\<lparr>enemies := replicate MAX_ENEMIES zero_entity\<rparr>"

section \<open>Predicates of the properties\<close>

text \<open>A shield is in order when its health is in \<open>[0, SHIELD_MAX_HEALTH]\<close> and it is
  active only with positive health. \<open>worn s s'\<close> relates a shield to a later version of
  it: the health has not grown, and a shield in order stays in order.\<close>

definition shield_ok :: "Shield \<Rightarrow> bool" where
  "shield_ok s =
     (0 \<le> s_health s \<and> s_health s \<le> SHIELD_MAX_HEALTH \<and> (s_active s \<longrightarrow> 0 < s_health s))"

definition worn :: "Shield \<Rightarrow> Shield \<Rightarrow> bool" where
  "worn s s' = (s_health s' \<le> s_health s \<and> (shield_ok s \<longrightarrow> shield_ok s'))"

text \<open>The test of the step for the end of a level, \<^verbatim>\<open>active_enemies == 0 &&
  !model->ufo.active\<close>, at the point where the step makes it.\<close>

definition level_cleared :: "real \<Rightarrow> rng \<Rightarrow> GameModel \<Rightarrow> bool" where
  "level_cleared dt r model =
     (case before_level_check dt r model of
        ((m3, active_enemies, touch_edge), r2) \<Rightarrow> active_enemies = 0 \<and> \<not> u_active (ufo m3))"

text \<open>What the first loop over the enemies does to one slot.\<close>

definition explode_tick :: "real \<Rightarrow> Entity \<Rightarrow> Entity" where
  "explode_tick dt e =
     (if e_active e \<and> e_exploding e
      then (let e1 = e\<lparr>e_explode_timer := e_explode_timer e - dt\<rparr>
            in if e_explode_timer e1 \<le> 0 then e1\<lparr>e_active := False\<rparr> else e1)
      else e)"

text \<open>The enemy array has 60 slots and the formation fills 55: the five spare slots are
  free when they are inactive.\<close>

definition spare_slots_free :: "GameModel \<Rightarrow> bool" where
  "spare_slots_free model =
     (length (enemies model) = MAX_ENEMIES \<and>
      list_all (\<lambda>e. \<not> e_active e) (drop 55 (enemies model)))"

text \<open>\<open>k\<close> is the first index, from 1 on, whose candidate name does not exist.\<close>

definition first_free :: "filesystem \<Rightarrow> string \<Rightarrow> nat \<Rightarrow> bool" where
  "first_free fs base_name k =
     (1 \<le> k \<and> \<not> save_file_exists fs (candidate_name base_name k) \<and>
      (\<forall>j. 1 \<le> j \<and> j < k \<longrightarrow> save_file_exists fs (candidate_name base_name j)))"

section \<open>Properties\<close>

lemmas game_constants =
  GAME_WIDTH_def GAME_HEIGHT_def MAX_ENEMIES_def MAX_BULLETS_def PLAYER_SPEED_def
  BULLET_SPEED_def ENEMY_SPEED_BASE_def ENEMY_DROP_HEIGHT_def PLAYER_WIDTH_def
  PLAYER_HEIGHT_def ENEMY_WIDTH_def ENEMY_HEIGHT_def BULLET_WIDTH_def BULLET_HEIGHT_def
  MAX_SAVE_FILES_def MAX_FILENAME_LEN_def MAX_SHIELDS_def SHIELD_MAX_HEALTH_def
  MAX_LIVES_NORMAL_def UFO_SPEED_def UFO_WIDTH_def UFO_HEIGHT_def

declare string_of_nat.simps [simp del]

subsection \<open>Facts about the initial model and about paths\<close>

lemma model_init_save_file_count: "save_file_count model_init = 0"
  by (simp add: model_init_def init_shields_def init_enemies_def zero_model_def)

lemma model_init_save_files: "save_files model_init = replicate 10 []"
  by (simp add: model_init_def init_shields_def init_enemies_def zero_model_def MAX_SAVE_FILES_def)

lemma save_path_Run: "save_path ''Run.dat'' = ''sauvegardes/Run.dat''"
  by (simp add: save_path_def snprintf_s_def)

subsection \<open>Saving and loading\<close>

lemma saved_game_fields:
  "state saved_game = STATE_SAVE_INPUT" "hit_timer saved_game = 3 / 2"
  "score saved_game = 120" "lives saved_game = 2" "level saved_game = 3"
  "volume saved_game = 70" "is_muted saved_game" "play_select_sound (sounds saved_game)"
  "beat_index (sounds saved_game) = 2" "previous_state saved_game = STATE_PAUSED"
  by (simp_all add: saved_game_def zero_sounds_def)

text \<open>
  C1, as the claim states it, fails: the sounds block holds, besides the eight request
  flags, the integer \<open>beat_index\<close> (the position in the four-beat rhythm of the march),
  and \<^verbatim>\<open>memset(&model->sounds, 0, sizeof(SoundState))\<close> resets it with the flags. A game
  saved with \<open>beat_index = 2\<close> is loaded with \<open>beat_index = 0\<close>, so a field that is
  neither the flow state, nor \<open>hit_timer\<close>, nor a request flag is not reproduced.
\<close>

theorem beat_index_reset_counterexample:
  "can_write empty_fs (save_path ''Run.dat'') \<and>
   beat_index (sounds saved_game) = 2 \<and>
   fst (model_load_named (model_save_named saved_game ''Run.dat'' empty_fs)
          model_init ''Run.dat'') \<and>
   beat_index (sounds (snd (model_load_named (model_save_named saved_game ''Run.dat'' empty_fs)
                              model_init ''Run.dat''))) = 0"
  by (simp add: model_load_named_def model_save_named_def Let_def empty_fs_def saved_game_def
      zero_sounds_def)

text \<open>
  C1, amended. When \<^verbatim>\<open>model_save_named\<close> can open the file for writing,
  \<^verbatim>\<open>model_load_named\<close> on the same name succeeds, whatever the current model is, and
  yields the saved model with the flow state forced to \<open>STATE_PLAYING\<close>, \<open>hit_timer\<close>
  forced to 0 and the whole sounds block zeroed: each of its eight request flags false
  and \<open>beat_index\<close> 0. Every other field of the model is the saved one: score, lives,
  level, volume, mute, the player, every enemy and bullet slot, the flyer, every shield,
  and each of the remaining fields, one by one.
\<close>

theorem save_load_roundtrip:
  assumes "can_write fs (save_path filename)"
  shows "model_load_named (model_save_named model filename fs) current filename =
           (True, model\<lparr>state := STATE_PLAYING, hit_timer := 0, sounds := zero_sounds\<rparr>) \<and>
         (let loaded = snd (model_load_named (model_save_named model filename fs) current filename)
          in score loaded = score model \<and> lives loaded = lives model \<and>
             level loaded = level model \<and> volume loaded = volume model \<and>
             is_muted loaded = is_muted model \<and> player loaded = player model \<and>
             enemies loaded = enemies model \<and> bullets loaded = bullets model \<and>
             ufo loaded = ufo model \<and> shields loaded = shields model \<and>
             state loaded = STATE_PLAYING \<and> hit_timer loaded = 0 \<and>
             sounds loaded = zero_sounds \<and>
             previous_state loaded = previous_state model \<and>
             normal_max_lives loaded = normal_max_lives model \<and>
             enemy_speed_mult loaded = enemy_speed_mult model \<and>
             direction_enemies loaded = direction_enemies model \<and>
             drop_direction loaded = drop_direction model \<and>
             drop_step_count loaded = drop_step_count model \<and>
             animation_frame loaded = animation_frame model \<and>
             animation_timer loaded = animation_timer model \<and>
             game_over_timer loaded = game_over_timer model \<and>
             save_success_timer loaded = save_success_timer model \<and>
             menu_selection loaded = menu_selection model \<and>
             input_buffer loaded = input_buffer model \<and>
             save_files loaded = save_files model \<and>
             save_file_count loaded = save_file_count model \<and>
             current_filename loaded = current_filename model \<and>
             pending_quit loaded = pending_quit model \<and>
             \<not> play_shoot (sounds loaded) \<and> \<not> play_invader_killed (sounds loaded) \<and>
             \<not> play_player_explosion (sounds loaded) \<and> \<not> play_select_sound (sounds loaded) \<and>
             \<not> play_game_over (sounds loaded) \<and> \<not> play_level_up (sounds loaded) \<and>
             \<not> play_beat (sounds loaded) \<and> \<not> ufo_loopING (sounds loaded) \<and>
             beat_index (sounds loaded) = 0)"
  using assms by (simp add: model_load_named_def model_save_named_def Let_def zero_sounds_def)

theorem save_load_roundtrip_witness:
  "can_write empty_fs (save_path ''Run.dat'') \<and>
   state saved_game = STATE_SAVE_INPUT \<and> hit_timer saved_game = 3 / 2 \<and>
   play_select_sound (sounds saved_game) \<and> beat_index (sounds saved_game) = 2 \<and>
   model_load_named (model_save_named saved_game ''Run.dat'' empty_fs) model_init ''Run.dat'' =
     (True, saved_game\<lparr>state := STATE_PLAYING, hit_timer := 0, sounds := zero_sounds\<rparr>) \<and>
   (let loaded = snd (model_load_named (model_save_named saved_game ''Run.dat'' empty_fs)
                        model_init ''Run.dat'')
    in state loaded = STATE_PLAYING \<and> hit_timer loaded = 0 \<and> sounds loaded = zero_sounds \<and>
       score loaded = 120 \<and> lives loaded = 2 \<and> level loaded = 3 \<and> volume loaded = 70 \<and>
       is_muted loaded \<and> previous_state loaded = STATE_PAUSED \<and>
       enemies loaded = enemies saved_game \<and> shields loaded = shields saved_game \<and>
       player loaded = player saved_game)"
proof -
  have w: "can_write empty_fs (save_path ''Run.dat'')" by (simp add: empty_fs_def)
  show ?thesis
    using save_load_roundtrip [OF w, of saved_game model_init] w saved_game_fields
    by (simp add: Let_def)
qed

text \<open>
  C2. \<^verbatim>\<open>model_load_named\<close> on a missing file, or on a file shorter than one record,
  returns false and the model it was given; and whenever it returns false, the model is
  the one it was given and the file was missing or short.
\<close>

theorem load_failure_atomic:
  "(files fs (save_path filename) = None \<or> files fs (save_path filename) = Some Short_file
      \<longrightarrow> model_load_named fs model filename = (False, model)) \<and>
   (\<not> fst (model_load_named fs model filename)
      \<longrightarrow> snd (model_load_named fs model filename) = model \<and>
          (files fs (save_path filename) = None \<or>
           files fs (save_path filename) = Some Short_file))"
  by (auto simp: model_load_named_def Let_def split: option.splits file_data.splits)

theorem load_failure_atomic_witness:
  "files empty_fs (save_path ''Run.dat'') = None \<and>
   model_load_named empty_fs model_init ''Run.dat'' = (False, model_init) \<and>
   files short_fs (save_path ''Run.dat'') = Some Short_file \<and>
   model_load_named short_fs model_init ''Run.dat'' = (False, model_init)"
  using load_failure_atomic [of empty_fs "''Run.dat''" model_init]
    load_failure_atomic [of short_fs "''Run.dat''" model_init]
  by (simp add: empty_fs_def short_fs_def save_path_Run)

subsection \<open>The cursor of the load menu\<close>

lemma load_menu_up:
  "state model = STATE_LOAD_MENU \<Longrightarrow>
   model_handle_input dirents fs model CMD_UP =
     Some (Running (model\<lparr>menu_selection :=
        (if menu_selection model - 1 < 0 then save_file_count model - 1
         else menu_selection model - 1)\<rparr>, fs))"
  by (simp add: model_handle_input_def handle_load_menu_def with_fs_def Let_def)

lemma load_menu_down:
  "state model = STATE_LOAD_MENU \<Longrightarrow>
   model_handle_input dirents fs model CMD_DOWN =
     Some (Running (model\<lparr>menu_selection :=
        (if menu_selection model + 1 \<ge> save_file_count model then 0
         else menu_selection model + 1)\<rparr>, fs))"
  by (simp add: model_handle_input_def handle_load_menu_def with_fs_def Let_def)

lemma cursor_up_mod:
  "0 < n \<Longrightarrow> 0 \<le> s \<Longrightarrow> s < n \<Longrightarrow>
     (if s - 1 < 0 then n - 1 else s - 1) = (s - 1) mod n" for s n :: int
  by (cases "s = 0") (simp_all add: zmod_minus1)

lemma cursor_down_mod:
  "0 < n \<Longrightarrow> 0 \<le> s \<Longrightarrow> s < n \<Longrightarrow>
     (if s + 1 \<ge> n then 0 else s + 1) = (s + 1) mod n" for s n :: int
  by (cases "s + 1 = n") simp_all

text \<open>
  C5, as the claim states it, fails: with no save file cached, Down moves the cursor of
  the load menu from 2 to 0 and Up moves it from 2 to 1.
\<close>

theorem load_menu_empty_counterexample:
  "state no_saves_menu = STATE_LOAD_MENU \<and> save_file_count no_saves_menu = 0 \<and>
   menu_selection no_saves_menu = 2 \<and>
   model_handle_input None empty_fs no_saves_menu CMD_DOWN =
     Some (Running (no_saves_menu\<lparr>menu_selection := 0\<rparr>, empty_fs)) \<and>
   model_handle_input None empty_fs no_saves_menu CMD_UP =
     Some (Running (no_saves_menu\<lparr>menu_selection := 1\<rparr>, empty_fs))"
  by (simp add: no_saves_menu_def model_handle_input_def handle_load_menu_def with_fs_def
      model_init_save_file_count Let_def)

text \<open>
  C5, amended. In the load menu, Up and Down change nothing but the cursor. With
  \<open>n > 0\<close> files cached and the cursor in \<open>[0, n - 1]\<close>, Up moves it to
  \<open>(cursor - 1) mod n\<close> and Down to \<open>(cursor + 1) mod n\<close>. With no file cached, Up
  decrements a cursor that is at least 1 and sets any other to \<open>- 1\<close>; Down sets a cursor
  that is at least \<open>- 1\<close> to 0 and increments any other.
\<close>

theorem load_menu_cursor:
  assumes "state model = STATE_LOAD_MENU"
  shows "(0 < save_file_count model \<and> 0 \<le> menu_selection model \<and>
          menu_selection model < save_file_count model \<longrightarrow>
            model_handle_input dirents fs model CMD_UP =
              Some (Running (model\<lparr>menu_selection :=
                 (menu_selection model - 1) mod save_file_count model\<rparr>, fs)) \<and>
            model_handle_input dirents fs model CMD_DOWN =
              Some (Running (model\<lparr>menu_selection :=
                 (menu_selection model + 1) mod save_file_count model\<rparr>, fs))) \<and>
         (save_file_count model = 0 \<longrightarrow>
            model_handle_input dirents fs model CMD_UP =
              Some (Running (model\<lparr>menu_selection :=
                 (if 1 \<le> menu_selection model then menu_selection model - 1 else - 1)\<rparr>, fs)) \<and>
            model_handle_input dirents fs model CMD_DOWN =
              Some (Running (model\<lparr>menu_selection :=
                 (if - 1 \<le> menu_selection model then 0 else menu_selection model + 1)\<rparr>, fs)))"
proof (intro conjI impI)
  assume r: "0 < save_file_count model \<and> 0 \<le> menu_selection model \<and>
             menu_selection model < save_file_count model"
  show "model_handle_input dirents fs model CMD_UP =
          Some (Running (model\<lparr>menu_selection :=
             (menu_selection model - 1) mod save_file_count model\<rparr>, fs))"
    using r cursor_up_mod [of "save_file_count model" "menu_selection model"]
    by (simp only: load_menu_up [OF assms])
  show "model_handle_input dirents fs model CMD_DOWN =
          Some (Running (model\<lparr>menu_selection :=
             (menu_selection model + 1) mod save_file_count model\<rparr>, fs))"
    using r cursor_down_mod [of "save_file_count model" "menu_selection model"]
    by (simp only: load_menu_down [OF assms])
next
  assume z: "save_file_count model = 0"
  have "(if menu_selection model - 1 < 0 then save_file_count model - 1
         else menu_selection model - 1) =
        (if 1 \<le> menu_selection model then menu_selection model - 1 else - 1)"
    using z by simp
  then show "model_handle_input dirents fs model CMD_UP =
          Some (Running (model\<lparr>menu_selection :=
             (if 1 \<le> menu_selection model then menu_selection model - 1 else - 1)\<rparr>, fs))"
    by (simp only: load_menu_up [OF assms])
  have "(if menu_selection model + 1 \<ge> save_file_count model then 0
         else menu_selection model + 1) =
        (if - 1 \<le> menu_selection model then 0 else menu_selection model + 1)"
    using z by simp
  then show "model_handle_input dirents fs model CMD_DOWN =
          Some (Running (model\<lparr>menu_selection :=
             (if - 1 \<le> menu_selection model then 0 else menu_selection model + 1)\<rparr>, fs))"
    by (simp only: load_menu_down [OF assms])
qed

theorem load_menu_cursor_witness:
  "state three_saves_menu = STATE_LOAD_MENU \<and>
   0 < save_file_count three_saves_menu \<and> 0 \<le> menu_selection three_saves_menu \<and>
   menu_selection three_saves_menu < save_file_count three_saves_menu \<and>
   model_handle_input None empty_fs three_saves_menu CMD_UP =
     Some (Running (three_saves_menu\<lparr>menu_selection := 2\<rparr>, empty_fs)) \<and>
   model_handle_input None empty_fs three_saves_menu CMD_DOWN =
     Some (Running (three_saves_menu\<lparr>menu_selection := 1\<rparr>, empty_fs)) \<and>
   state no_saves_menu = STATE_LOAD_MENU \<and> save_file_count no_saves_menu = 0 \<and>
   model_handle_input None empty_fs no_saves_menu CMD_UP =
     Some (Running (no_saves_menu\<lparr>menu_selection := 1\<rparr>, empty_fs)) \<and>
   model_handle_input None empty_fs no_saves_menu CMD_DOWN =
     Some (Running (no_saves_menu\<lparr>menu_selection := 0\<rparr>, empty_fs))"
proof -
  have a: "state three_saves_menu = STATE_LOAD_MENU" "save_file_count three_saves_menu = 3"
    "menu_selection three_saves_menu = 0"
    by (simp_all add: three_saves_menu_def)
  have b: "state no_saves_menu = STATE_LOAD_MENU" "save_file_count no_saves_menu = 0"
    "menu_selection no_saves_menu = 2"
    by (simp_all add: no_saves_menu_def model_init_save_file_count)
  show ?thesis
    using load_menu_cursor [OF a(1), of None empty_fs] load_menu_cursor [OF b(1), of None empty_fs]
    by (simp add: a b)
qed

subsection \<open>Scanning the save directory\<close>

text \<open>
  C6. The scan keeps every non-hidden entry whose name contains \<^verbatim>\<open>.dat\<close> anywhere
  (\<^verbatim>\<open>strstr\<close>), not only at the end: for the listing \<^verbatim>\<open>.\<close>, \<^verbatim>\<open>..\<close>, \<^verbatim>\<open>Run.dat\<close>,
  \<^verbatim>\<open>notes.dat.txt\<close> it records both \<^verbatim>\<open>Run.dat\<close> and \<^verbatim>\<open>notes.dat.txt\<close>, and the second
  name does not end with \<^verbatim>\<open>.dat\<close>.
\<close>

theorem scan_records_name_without_suffix:
  "model_scan_saves (Some [''.'', ''..'', ''Run.dat'', ''notes.dat.txt'']) model_init =
     model_init\<lparr>save_files := [''Run.dat'', ''notes.dat.txt'', [], [], [], [], [], [], [], []],
                 save_file_count := 2\<rparr> \<and>
   \<not> ends_with ''notes.dat.txt'' ''.dat''"
  by (simp add: model_scan_saves_def model_init_save_files MAX_SAVE_FILES_def snprintf_s_def
      ends_with_def eval_nat_numeral)

subsection \<open>Shooting with a full pool\<close>

lemma spawn_in_full: "\<forall>b \<in> set bs. e_active b \<Longrightarrow> spawn_in x y dy t bs = bs"
  by (induction bs) simp_all

text \<open>
  C9. In \<open>STATE_PLAYING\<close>, when every slot of the bullet pool is active and the shoot
  cooldown is at most 0, \<open>CMD_SHOOT\<close> leaves the pool (and every other field) as it is,
  except that the cooldown of the player becomes 0.5 and the flag \<open>play_shoot\<close> is raised.
\<close>

theorem shoot_with_full_pool:
  assumes "state model = STATE_PLAYING"
    and "\<forall>b \<in> set (bullets model). e_active b"
    and "e_shoot_timer (player model) \<le> 0"
  shows "model_handle_input dirents fs model CMD_SHOOT =
           Some (Running (model\<lparr>player := (player model)\<lparr>e_shoot_timer := 1 / 2\<rparr>,
                               sounds := (sounds model)\<lparr>play_shoot := True\<rparr>\<rparr>, fs))"
  using assms
  by (simp add: model_handle_input_def handle_playing_def with_fs_def spawn_bullet_def
      spawn_in_full Let_def)

theorem shoot_with_full_pool_witness:
  "state full_pool_game = STATE_PLAYING \<and>
   length (bullets full_pool_game) = 100 \<and>
   list_all e_active (bullets full_pool_game) \<and>
   e_shoot_timer (player full_pool_game) \<le> 0 \<and>
   model_handle_input None empty_fs full_pool_game CMD_SHOOT =
     Some (Running (full_pool_game\<lparr>player := (player full_pool_game)\<lparr>e_shoot_timer := 1 / 2\<rparr>,
                      sounds := (sounds full_pool_game)\<lparr>play_shoot := True\<rparr>\<rparr>, empty_fs))"
proof -
  have a: "state full_pool_game = STATE_PLAYING"
    by (simp add: full_pool_game_def reset_game_def Let_def)
  have b: "\<forall>b \<in> set (bullets full_pool_game). e_active b"
    by (simp add: full_pool_game_def)
  have c: "e_shoot_timer (player full_pool_game) \<le> 0"
    by (simp add: full_pool_game_def reset_game_def Let_def init_shields_def init_enemies_def
        model_init_def zero_model_def zero_entity_def)
  have d: "length (bullets full_pool_game) = 100"
    by (simp add: full_pool_game_def MAX_BULLETS_def)
  show ?thesis
    using shoot_with_full_pool [OF a b c, of None empty_fs] a b c d
    by (simp add: list_all_iff)
qed


subsection \<open>Keeping both files\<close>

lemma probe_from_first_free:
  assumes "i \<le> k"
    and "\<not> save_file_exists fs (candidate_name base k)"
    and "\<forall>j. i \<le> j \<and> j < k \<longrightarrow> save_file_exists fs (candidate_name base j)"
  shows "probe_from fs base i = Some (candidate_name base k)"
  using assms
proof (induction "k - i" arbitrary: i)
  case 0
  then have "i = k" by simp
  with 0 show ?case by (subst probe_from.simps) simp
next
  case (Suc d)
  then have lt: "i < k" by simp
  with Suc.prems have ex: "save_file_exists fs (candidate_name base i)" by simp
  have "probe_from fs base (i + 1) = Some (candidate_name base k)"
    using Suc.hyps Suc.prems lt by (intro Suc.hyps(1)) auto
  with ex show ?case by (subst probe_from.simps) simp
qed

lemma model_save_named_keeps:
  "files fs (save_path filename) = None \<Longrightarrow> files fs path \<noteq> None \<Longrightarrow>
   files (model_save_named model filename fs) path = files fs path"
  by (auto simp: model_save_named_def Let_def)

lemma model_save_named_writes:
  "can_write fs (save_path filename) \<Longrightarrow>
   files (model_save_named model filename fs) (save_path filename) = Some (Full_record model)"
  by (simp add: model_save_named_def Let_def)

lemma candidate_Run_2: "candidate_name ''Run'' 2 = ''Run(2).dat''"
  by (simp add: candidate_name_def snprintf_s_def string_of_nat.simps digit_char_def)

lemma candidate_Run_1: "candidate_name ''Run'' 1 = ''Run(1).dat''"
  by (simp add: candidate_name_def snprintf_s_def string_of_nat.simps digit_char_def)

lemma save_path_Run_2: "save_path ''Run(2).dat'' = ''sauvegardes/Run(2).dat''"
  by (simp add: save_path_def snprintf_s_def)

lemma save_path_Run_1: "save_path ''Run(1).dat'' = ''sauvegardes/Run(1).dat''"
  by (simp add: save_path_def snprintf_s_def)

lemma candidate_name_untruncated:
  "length base_name + length (string_of_nat i) + 6 \<le> 127 \<Longrightarrow>
   candidate_name base_name i = base_name @ ''('' @ string_of_nat i @ '').dat''"
  by (simp add: candidate_name_def snprintf_s_def)

lemma keep_both_step:
  assumes "state model = STATE_OVERWRITE_CONFIRM" and "menu_selection model \<noteq> 0"
    and "cmd = CMD_RETURN \<or> cmd = CMD_SHOOT"
    and "generate_unique_filename fs (input_buffer model) = Some new_name"
  shows "model_handle_input dirents fs model cmd =
           Some (Running ((select_sound model)\<lparr>state := STATE_SAVE_SUCCESS, save_success_timer := 2\<rparr>,
                          model_save_named (select_sound model) new_name fs))"
  using assms
  by (auto simp: model_handle_input_def handle_overwrite_confirm_def Let_def select_sound_def)

lemma digit_char_inj: "a < 10 \<Longrightarrow> b < 10 \<Longrightarrow> digit_char a = digit_char b \<Longrightarrow> a = b"
proof -
  assume a: "a < 10" "b < 10" "digit_char a = digit_char b"
  have d: "distinct ''0123456789''" by simp
  have l: "length ''0123456789'' = 10" by simp
  show ?thesis
    using a nth_eq_iff_index_eq [OF d, of a b] unfolding digit_char_def l by simp
qed

lemma string_of_nat_small: "n < 10 \<Longrightarrow> string_of_nat n = [digit_char n]"
  by (subst string_of_nat.simps) simp

lemma string_of_nat_large:
  "10 \<le> n \<Longrightarrow> string_of_nat n = string_of_nat (n div 10) @ [digit_char (n mod 10)]"
  by (subst string_of_nat.simps) simp

lemma string_of_nat_nonempty: "string_of_nat n \<noteq> []"
  by (cases "n < 10") (simp_all add: string_of_nat_small string_of_nat_large)

lemma string_of_nat_inj: "string_of_nat m = string_of_nat n \<Longrightarrow> m = n"
proof (induction m arbitrary: n rule: string_of_nat.induct)
  case (1 m)
  show ?case
  proof (cases "m < 10")
    case True
    then have sm: "string_of_nat m = [digit_char m]" by (rule string_of_nat_small)
    have "n < 10"
    proof (rule ccontr)
      assume "\<not> n < 10"
      then have "string_of_nat n = string_of_nat (n div 10) @ [digit_char (n mod 10)]"
        by (simp add: string_of_nat_large)
      with "1.prems" sm have "string_of_nat (n div 10) = []" by simp
      then show False by (simp add: string_of_nat_nonempty)
    qed
    then show ?thesis
      using "1.prems" sm True by (simp add: string_of_nat_small digit_char_inj)
  next
    case False
    then have sm: "string_of_nat m = string_of_nat (m div 10) @ [digit_char (m mod 10)]"
      by (simp add: string_of_nat_large)
    have n10: "\<not> n < 10"
    proof
      assume "n < 10"
      then have "string_of_nat n = [digit_char n]" by (rule string_of_nat_small)
      with "1.prems" sm have "string_of_nat (m div 10) = []" by simp
      then show False by (simp add: string_of_nat_nonempty)
    qed
    then have sn: "string_of_nat n = string_of_nat (n div 10) @ [digit_char (n mod 10)]"
      by (simp add: string_of_nat_large)
    from "1.prems" sm sn have e: "string_of_nat (m div 10) = string_of_nat (n div 10)"
      and d: "digit_char (m mod 10) = digit_char (n mod 10)" by simp_all
    have "m div 10 = n div 10" using "1.IH" [OF False e] .
    moreover have "m mod 10 = n mod 10" using d by (intro digit_char_inj) simp_all
    ultimately show ?thesis by (metis div_mult_mod_eq)
  qed
qed

lemma string_of_nat_length: "n < 10 ^ k \<Longrightarrow> 0 < k \<Longrightarrow> length (string_of_nat n) \<le> k"
proof (induction n arbitrary: k rule: string_of_nat.induct)
  case (1 n)
  show ?case
  proof (cases "n < 10")
    case True
    then show ?thesis using "1.prems" by (simp add: string_of_nat_small)
  next
    case False
    obtain k' where k: "k = Suc k'" using "1.prems"(2) by (cases k) simp_all
    have "k' \<noteq> 0" using "1.prems"(1) False k by (cases k') simp_all
    moreover have "n div 10 < 10 ^ k'"
      using "1.prems"(1) k by (simp add: less_mult_imp_div_less mult.commute)
    ultimately have "length (string_of_nat (n div 10)) \<le> k'"
      using "1.IH" [OF False] by simp
    then show ?thesis using False k by (simp add: string_of_nat_large)
  qed
qed

lemma candidate_path_plain:
  assumes "length base_name < MAX_FILENAME_LEN" and "i < 2147483648"
  shows "candidate_name base_name i = base_name @ ''('' @ string_of_nat i @ '').dat''"
    and "save_path (candidate_name base_name i) =
           ''sauvegardes/'' @ base_name @ ''('' @ string_of_nat i @ '').dat''"
proof -
  have "i < 10 ^ 10" using assms(2) by simp
  then have l: "length (string_of_nat i) \<le> 10"
    by (intro string_of_nat_length) simp_all
  show c: "candidate_name base_name i = base_name @ ''('' @ string_of_nat i @ '').dat''"
    using assms(1) l by (simp add: candidate_name_def snprintf_s_def MAX_FILENAME_LEN_def)
  show "save_path (candidate_name base_name i) =
           ''sauvegardes/'' @ base_name @ ''('' @ string_of_nat i @ '').dat''"
    unfolding c using assms(1) l by (simp add: save_path_def snprintf_s_def MAX_FILENAME_LEN_def)
qed

lemma candidate_path_inj:
  assumes "length base_name < MAX_FILENAME_LEN" and "i < 2147483648" and "j < 2147483648"
    and "save_path (candidate_name base_name i) = save_path (candidate_name base_name j)"
  shows "i = j"
proof -
  have "string_of_nat i = string_of_nat j"
    using assms(4) candidate_path_plain(2) [OF assms(1,2)] candidate_path_plain(2) [OF assms(1,3)]
    by simp
  then show ?thesis by (rule string_of_nat_inj)
qed

lemma free_candidate_exists:
  assumes fin: "finite (dom (files fs))" and small: "card (dom (files fs)) < 2147483647"
    and len: "length base_name < MAX_FILENAME_LEN"
  shows "\<exists>k. first_free fs base_name k \<and> k \<le> card (dom (files fs)) + 1"
proof -
  let ?N = "card (dom (files fs))"
  let ?p = "\<lambda>i. save_path (candidate_name base_name i)"
  have "\<exists>i. 1 \<le> i \<and> i \<le> ?N + 1 \<and> \<not> save_file_exists fs (candidate_name base_name i)"
  proof (rule ccontr)
    assume "\<not> ?thesis"
    then have all: "\<forall>i. 1 \<le> i \<and> i \<le> ?N + 1 \<longrightarrow> ?p i \<in> dom (files fs)"
      by (auto simp: save_file_exists_def)
    have inj: "inj_on ?p {1..?N + 1}"
    proof (rule inj_onI)
      fix i j
      assume "i \<in> {1..?N + 1}" "j \<in> {1..?N + 1}" "?p i = ?p j"
      then show "i = j"
        using small by (intro candidate_path_inj [OF len]) simp_all
    qed
    have "?p ` {1..?N + 1} \<subseteq> dom (files fs)" using all by auto
    then have "card (?p ` {1..?N + 1}) \<le> ?N" using fin by (intro card_mono)
    then show False using inj by (simp add: card_image)
  qed
  then obtain i where i: "1 \<le> i" "i \<le> ?N + 1"
    "\<not> save_file_exists fs (candidate_name base_name i)" by blast
  define k where "k = (LEAST i. 1 \<le> i \<and> \<not> save_file_exists fs (candidate_name base_name i))"
  have k1: "1 \<le> k \<and> \<not> save_file_exists fs (candidate_name base_name k)"
    unfolding k_def
    using i by (intro LeastI [of "\<lambda>i. 1 \<le> i \<and> \<not> save_file_exists fs (candidate_name base_name i)" i]) simp
  have k2: "k \<le> i"
    unfolding k_def using i by (intro Least_le) simp
  have k3: "\<forall>j. 1 \<le> j \<and> j < k \<longrightarrow> save_file_exists fs (candidate_name base_name j)"
    unfolding k_def using not_less_Least by blast
  show ?thesis
    using k1 k2 k3 i(2) by (intro exI [of _ k]) (simp add: first_free_def)
qed

text \<open>
  C8. In \<open>STATE_OVERWRITE_CONFIRM\<close> with the cursor on "keep both", Confirm probes
  \<open>candidate_name base 1\<close>, \<open>candidate_name base 2\<close>, ... in this order. When \<open>k\<close> is the
  first index whose name does not exist, the search returns that name, the save is
  written under it (when the file can be opened for writing), every file that existed
  keeps its content, and the model goes to \<open>STATE_SAVE_SUCCESS\<close>. The name is
  \<^verbatim>\<open><base>(k).dat\<close> as long as it fits the 128-byte buffer; for the base \<^verbatim>\<open>Run\<close> and
  \<open>k = 2\<close> it is \<^verbatim>\<open>Run(2).dat\<close>, stored at \<^verbatim>\<open>sauvegardes/Run(2).dat\<close>. Such a first
  index exists, so that the search ends, whenever the directory holds finitely many
  files, fewer than \<^verbatim>\<open>INT_MAX\<close>, and the base fits the 32-byte input buffer.
\<close>

theorem keep_both_first_free_name:
  assumes st: "state model = STATE_OVERWRITE_CONFIRM" and sel: "menu_selection model \<noteq> 0"
    and cmd: "cmd = CMD_RETURN \<or> cmd = CMD_SHOOT"
  shows "(first_free fs (input_buffer model) k \<longrightarrow>
            generate_unique_filename fs (input_buffer model) =
              Some (candidate_name (input_buffer model) k) \<and>
            model_handle_input dirents fs model cmd =
              Some (Running
                ((select_sound model)\<lparr>state := STATE_SAVE_SUCCESS, save_success_timer := 2\<rparr>,
                 model_save_named (select_sound model)
                   (candidate_name (input_buffer model) k) fs)) \<and>
            (\<forall>path. files fs path \<noteq> None \<longrightarrow>
               files (model_save_named (select_sound model)
                        (candidate_name (input_buffer model) k) fs) path = files fs path) \<and>
            (can_write fs (save_path (candidate_name (input_buffer model) k)) \<longrightarrow>
               files (model_save_named (select_sound model)
                        (candidate_name (input_buffer model) k) fs)
                 (save_path (candidate_name (input_buffer model) k)) =
               Some (Full_record (select_sound model))) \<and>
            (length (input_buffer model) + length (string_of_nat k) + 6 \<le> 127 \<longrightarrow>
               candidate_name (input_buffer model) k =
                 input_buffer model @ ''('' @ string_of_nat k @ '').dat'') \<and>
            (input_buffer model = ''Run'' \<and> k = 2 \<longrightarrow>
               candidate_name (input_buffer model) k = ''Run(2).dat'' \<and>
               save_path (candidate_name (input_buffer model) k) = ''sauvegardes/Run(2).dat'')) \<and>
         (finite (dom (files fs)) \<and> card (dom (files fs)) < 2147483647 \<and>
          length (input_buffer model) < MAX_FILENAME_LEN \<longrightarrow>
            (\<exists>n. first_free fs (input_buffer model) n \<and> n \<le> card (dom (files fs)) + 1 \<and>
               candidate_name (input_buffer model) n =
                 input_buffer model @ ''('' @ string_of_nat n @ '').dat'' \<and>
               model_handle_input dirents fs model cmd =
                 Some (Running
                   ((select_sound model)\<lparr>state := STATE_SAVE_SUCCESS, save_success_timer := 2\<rparr>,
                    model_save_named (select_sound model)
                      (candidate_name (input_buffer model) n) fs))))"
proof -
  have found: "generate_unique_filename fs (input_buffer model) =
      Some (candidate_name (input_buffer model) i) \<and>
    model_handle_input dirents fs model cmd =
      Some (Running
        ((select_sound model)\<lparr>state := STATE_SAVE_SUCCESS, save_success_timer := 2\<rparr>,
         model_save_named (select_sound model) (candidate_name (input_buffer model) i) fs))"
    if "first_free fs (input_buffer model) i" for i
  proof -
    have g: "generate_unique_filename fs (input_buffer model) =
        Some (candidate_name (input_buffer model) i)"
      unfolding generate_unique_filename_def
      using that by (intro probe_from_first_free) (auto simp: first_free_def)
    show ?thesis using g keep_both_step [OF st sel cmd g] by simp
  qed
  have first: "first_free fs (input_buffer model) k \<longrightarrow>
            generate_unique_filename fs (input_buffer model) =
              Some (candidate_name (input_buffer model) k) \<and>
            model_handle_input dirents fs model cmd =
              Some (Running
                ((select_sound model)\<lparr>state := STATE_SAVE_SUCCESS, save_success_timer := 2\<rparr>,
                 model_save_named (select_sound model)
                   (candidate_name (input_buffer model) k) fs)) \<and>
            (\<forall>path. files fs path \<noteq> None \<longrightarrow>
               files (model_save_named (select_sound model)
                        (candidate_name (input_buffer model) k) fs) path = files fs path) \<and>
            (can_write fs (save_path (candidate_name (input_buffer model) k)) \<longrightarrow>
               files (model_save_named (select_sound model)
                        (candidate_name (input_buffer model) k) fs)
                 (save_path (candidate_name (input_buffer model) k)) =
               Some (Full_record (select_sound model))) \<and>
            (length (input_buffer model) + length (string_of_nat k) + 6 \<le> 127 \<longrightarrow>
               candidate_name (input_buffer model) k =
                 input_buffer model @ ''('' @ string_of_nat k @ '').dat'') \<and>
            (input_buffer model = ''Run'' \<and> k = 2 \<longrightarrow>
               candidate_name (input_buffer model) k = ''Run(2).dat'' \<and>
               save_path (candidate_name (input_buffer model) k) = ''sauvegardes/Run(2).dat'')"
  proof
    assume f: "first_free fs (input_buffer model) k"
    let ?name = "candidate_name (input_buffer model) k"
    have absent: "files fs (save_path ?name) = None"
      using f by (simp add: first_free_def save_file_exists_def)
    have keeps: "\<forall>path. files fs path \<noteq> None \<longrightarrow>
        files (model_save_named (select_sound model) ?name fs) path = files fs path"
      using model_save_named_keeps [OF absent] by blast
    have ex: "input_buffer model = ''Run'' \<and> k = 2 \<longrightarrow>
        ?name = ''Run(2).dat'' \<and> save_path ?name = ''sauvegardes/Run(2).dat''"
      by (auto simp: candidate_Run_2 save_path_Run_2)
    show "generate_unique_filename fs (input_buffer model) = Some ?name \<and>
            model_handle_input dirents fs model cmd =
              Some (Running
                ((select_sound model)\<lparr>state := STATE_SAVE_SUCCESS, save_success_timer := 2\<rparr>,
                 model_save_named (select_sound model) ?name fs)) \<and>
            (\<forall>path. files fs path \<noteq> None \<longrightarrow>
               files (model_save_named (select_sound model) ?name fs) path = files fs path) \<and>
            (can_write fs (save_path ?name) \<longrightarrow>
               files (model_save_named (select_sound model) ?name fs) (save_path ?name) =
               Some (Full_record (select_sound model))) \<and>
            (length (input_buffer model) + length (string_of_nat k) + 6 \<le> 127 \<longrightarrow>
               ?name = input_buffer model @ ''('' @ string_of_nat k @ '').dat'') \<and>
            (input_buffer model = ''Run'' \<and> k = 2 \<longrightarrow>
               ?name = ''Run(2).dat'' \<and> save_path ?name = ''sauvegardes/Run(2).dat'')"
      using found [OF f] keeps ex
        model_save_named_writes [of fs ?name "select_sound model"]
        candidate_name_untruncated [of "input_buffer model" k]
      by blast
  qed
  have total: "finite (dom (files fs)) \<and> card (dom (files fs)) < 2147483647 \<and>
          length (input_buffer model) < MAX_FILENAME_LEN \<longrightarrow>
            (\<exists>n. first_free fs (input_buffer model) n \<and> n \<le> card (dom (files fs)) + 1 \<and>
               candidate_name (input_buffer model) n =
                 input_buffer model @ ''('' @ string_of_nat n @ '').dat'' \<and>
               model_handle_input dirents fs model cmd =
                 Some (Running
                   ((select_sound model)\<lparr>state := STATE_SAVE_SUCCESS, save_success_timer := 2\<rparr>,
                    model_save_named (select_sound model)
                      (candidate_name (input_buffer model) n) fs)))"
  proof
    assume a: "finite (dom (files fs)) \<and> card (dom (files fs)) < 2147483647 \<and>
          length (input_buffer model) < MAX_FILENAME_LEN"
    then obtain n where n: "first_free fs (input_buffer model) n" "n \<le> card (dom (files fs)) + 1"
      using free_candidate_exists [of fs "input_buffer model"] by blast
    have "n < 2147483648" using n(2) a by simp
    then have "candidate_name (input_buffer model) n =
                 input_buffer model @ ''('' @ string_of_nat n @ '').dat''"
      using a by (intro candidate_path_plain(1)) simp_all
    then show "\<exists>n. first_free fs (input_buffer model) n \<and> n \<le> card (dom (files fs)) + 1 \<and>
               candidate_name (input_buffer model) n =
                 input_buffer model @ ''('' @ string_of_nat n @ '').dat'' \<and>
               model_handle_input dirents fs model cmd =
                 Some (Running
                   ((select_sound model)\<lparr>state := STATE_SAVE_SUCCESS, save_success_timer := 2\<rparr>,
                    model_save_named (select_sound model)
                      (candidate_name (input_buffer model) n) fs))"
      using n found [OF n(1)] by blast
  qed
  show ?thesis using first total by (rule conjI)
qed

lemma run_fs_finite: "finite (dom (files run_fs))" "card (dom (files run_fs)) = 2"
  by (simp_all add: run_fs_def)

theorem keep_both_first_free_name_witness:
  "state keep_both_game = STATE_OVERWRITE_CONFIRM \<and> menu_selection keep_both_game = 1 \<and>
   input_buffer keep_both_game = ''Run'' \<and>
   finite (dom (files run_fs)) \<and> card (dom (files run_fs)) = 2 \<and>
   save_file_exists run_fs ''Run(1).dat'' \<and> \<not> save_file_exists run_fs ''Run(2).dat'' \<and>
   first_free run_fs ''Run'' 2 \<and>
   model_handle_input None run_fs keep_both_game CMD_RETURN =
     Some (Running
       ((select_sound keep_both_game)\<lparr>state := STATE_SAVE_SUCCESS, save_success_timer := 2\<rparr>,
        model_save_named (select_sound keep_both_game) ''Run(2).dat'' run_fs)) \<and>
   files (model_save_named (select_sound keep_both_game) ''Run(2).dat'' run_fs)
     ''sauvegardes/Run(2).dat'' = Some (Full_record (select_sound keep_both_game)) \<and>
   files (model_save_named (select_sound keep_both_game) ''Run(2).dat'' run_fs)
     ''sauvegardes/Run(1).dat'' = Some Short_file \<and>
   files (model_save_named (select_sound keep_both_game) ''Run(2).dat'' run_fs)
     ''sauvegardes/Run.dat'' = Some Short_file"
proof -
  have st: "state keep_both_game = STATE_OVERWRITE_CONFIRM"
    and sel: "menu_selection keep_both_game \<noteq> 0" "menu_selection keep_both_game = 1"
    and buf: "input_buffer keep_both_game = ''Run''"
    by (simp_all add: keep_both_game_def)
  have e1: "save_file_exists run_fs ''Run(1).dat''"
    and e2: "\<not> save_file_exists run_fs ''Run(2).dat''"
    by (simp_all add: save_file_exists_def run_fs_def save_path_Run_1 save_path_Run_2)
  have ff: "first_free run_fs ''Run'' 2"
    unfolding first_free_def
  proof (intro conjI allI impI)
    show "1 \<le> (2 :: nat)" by simp
    show "\<not> save_file_exists run_fs (candidate_name ''Run'' 2)"
      using e2 by (simp add: candidate_Run_2)
    fix j :: nat
    assume "1 \<le> j \<and> j < 2"
    then have "j = 1" by simp
    then show "save_file_exists run_fs (candidate_name ''Run'' j)"
      using e1 candidate_Run_1 by simp
  qed
  have w: "can_write run_fs ''sauvegardes/Run(2).dat''"
    by (simp add: run_fs_def)
  have old: "files run_fs ''sauvegardes/Run(1).dat'' = Some Short_file"
    "files run_fs ''sauvegardes/Run.dat'' = Some Short_file"
    by (simp_all add: run_fs_def)
  show ?thesis
    using keep_both_first_free_name [OF st sel(1), where cmd = CMD_RETURN and dirents = None
        and fs = run_fs and k = 2]
      st sel buf e1 e2 w old ff run_fs_finite
    by (simp add: candidate_Run_2 save_path_Run_2)
qed

subsection \<open>What each part of the step leaves unchanged\<close>

lemma update_timers_frame [simp]:
  "shields (update_timers dt m) = shields m"
  "level (update_timers dt m) = level m"
  "lives (update_timers dt m) = lives m"
  "state (update_timers dt m) = state m"
  "enemies (update_timers dt m) = enemies m"
  "bullets (update_timers dt m) = bullets m"
  "ufo (update_timers dt m) = ufo m"
  by (simp_all add: update_timers_def Let_def)

lemma update_player_frame [simp]:
  "shields (update_player dt m) = shields m"
  "level (update_player dt m) = level m"
  "lives (update_player dt m) = lives m"
  "state (update_player dt m) = state m"
  "hit_timer (update_player dt m) = hit_timer m"
  "enemies (update_player dt m) = enemies m"
  "bullets (update_player dt m) = bullets m"
  "ufo (update_player dt m) = ufo m"
  by (simp_all add: update_player_def Let_def)

lemma spawn_ufo_frame [simp]:
  "shields (fst (spawn_ufo r m)) = shields m"
  "level (fst (spawn_ufo r m)) = level m"
  "lives (fst (spawn_ufo r m)) = lives m"
  "state (fst (spawn_ufo r m)) = state m"
  "hit_timer (fst (spawn_ufo r m)) = hit_timer m"
  "player (fst (spawn_ufo r m)) = player m"
  "enemies (fst (spawn_ufo r m)) = enemies m"
  "bullets (fst (spawn_ufo r m)) = bullets m"
  by (simp_all add: spawn_ufo_def Let_def split: prod.splits)

lemma update_ufo_frame [simp]:
  "shields (fst (update_ufo dt r m)) = shields m"
  "level (fst (update_ufo dt r m)) = level m"
  "lives (fst (update_ufo dt r m)) = lives m"
  "state (fst (update_ufo dt r m)) = state m"
  "hit_timer (fst (update_ufo dt r m)) = hit_timer m"
  "player (fst (update_ufo dt r m)) = player m"
  "enemies (fst (update_ufo dt r m)) = enemies m"
  "bullets (fst (update_ufo dt r m)) = bullets m"
  by (simp_all add: update_ufo_def Let_def split: prod.splits)

lemma init_enemies_frame [simp]:
  "shields (init_enemies m) = shields m"
  "level (init_enemies m) = level m"
  "lives (init_enemies m) = lives m"
  "state (init_enemies m) = state m"
  "hit_timer (init_enemies m) = hit_timer m"
  "player (init_enemies m) = player m"
  "bullets (init_enemies m) = bullets m"
  by (simp_all add: init_enemies_def)

lemma next_level_frame [simp]:
  "shields (next_level m) = shields m"
  "level (next_level m) = level m + 1"
  "lives (next_level m) = lives m"
  "state (next_level m) = state m"
  "hit_timer (next_level m) = hit_timer m"
  "player (next_level m) = player m"
  "bullets (next_level m) = bullets m"
  by (simp_all add: next_level_def)

lemma move_enemies_frame [simp]:
  "shields (move_enemies dt t m) = shields m"
  "level (move_enemies dt t m) = level m"
  "lives (move_enemies dt t m) = lives m"
  "state (move_enemies dt t m) = state m"
  "hit_timer (move_enemies dt t m) = hit_timer m"
  "player (move_enemies dt t m) = player m"
  "bullets (move_enemies dt t m) = bullets m"
  "ufo (move_enemies dt t m) = ufo m"
  by (simp_all add: move_enemies_def Let_def)

lemma spawn_bullet_frame [simp]:
  "shields (spawn_bullet m x y dy t) = shields m"
  "level (spawn_bullet m x y dy t) = level m"
  "lives (spawn_bullet m x y dy t) = lives m"
  "state (spawn_bullet m x y dy t) = state m"
  "hit_timer (spawn_bullet m x y dy t) = hit_timer m"
  "player (spawn_bullet m x y dy t) = player m"
  "enemies (spawn_bullet m x y dy t) = enemies m"
  "ufo (spawn_bullet m x y dy t) = ufo m"
  by (simp_all add: spawn_bullet_def)

lemma enemy_fire_tries_frame [simp]:
  "shields (fst (enemy_fire_tries k r m)) = shields m"
  "level (fst (enemy_fire_tries k r m)) = level m"
  "lives (fst (enemy_fire_tries k r m)) = lives m"
  "state (fst (enemy_fire_tries k r m)) = state m"
  "hit_timer (fst (enemy_fire_tries k r m)) = hit_timer m"
  "player (fst (enemy_fire_tries k r m)) = player m"
  "enemies (fst (enemy_fire_tries k r m)) = enemies m"
  "ufo (fst (enemy_fire_tries k r m)) = ufo m"
  by (induction k arbitrary: r; simp add: Let_def split: prod.splits)+

lemma enemy_fire_frame [simp]:
  "shields (fst (enemy_fire r m)) = shields m"
  "level (fst (enemy_fire r m)) = level m"
  "lives (fst (enemy_fire r m)) = lives m"
  "state (fst (enemy_fire r m)) = state m"
  "hit_timer (fst (enemy_fire r m)) = hit_timer m"
  "player (fst (enemy_fire r m)) = player m"
  "enemies (fst (enemy_fire r m)) = enemies m"
  "ufo (fst (enemy_fire r m)) = ufo m"
  by (simp_all add: enemy_fire_def Let_def split: prod.splits)

lemma bullet_vs_targets_frame [simp]:
  "shields (snd (bullet_vs_targets b m)) = shields m"
  "level (snd (bullet_vs_targets b m)) = level m"
  "state (snd (bullet_vs_targets b m)) = state m"
  "hit_timer (snd (bullet_vs_targets b m)) = hit_timer m"
  "player (snd (bullet_vs_targets b m)) = player m"
  by (simp_all add: bullet_vs_targets_def split: option.splits prod.splits)

lemma bullet_vs_targets_lives: "lives m \<le> lives (snd (bullet_vs_targets b m))"
  by (simp add: bullet_vs_targets_def split: option.splits prod.splits)

lemma bullet_vs_player_frame [simp]:
  "shields (snd (bullet_vs_player b m)) = shields m"
  "level (snd (bullet_vs_player b m)) = level m"
  "player (snd (bullet_vs_player b m)) = player m"
  by (simp_all add: bullet_vs_player_def Let_def)

lemma bullet_step_frame [simp]:
  "level (snd (bullet_step dt b m)) = level m"
  "player (snd (bullet_step dt b m)) = player m"
  by (simp_all add: bullet_step_def Let_def split: option.splits)

lemma bullet_step_shields:
  "shields (snd (bullet_step dt b m)) =
     (if e_active b \<and> \<not> (e_y (move_bullet dt b) < - 10 \<or> e_y (move_bullet dt b) > of_int GAME_HEIGHT)
      then (case hit_shields (move_bullet dt b) (shields m) of Some ss \<Rightarrow> ss | None \<Rightarrow> shields m)
      else shields m)"
  by (simp add: bullet_step_def Let_def split: option.splits)

lemma bullets_loop_frame [simp]:
  "level (snd (bullets_loop dt bs m)) = level m"
  "player (snd (bullets_loop dt bs m)) = player m"
  by (induction bs arbitrary: m; simp add: Let_def split: prod.splits;
      metis bullet_step_frame snd_conv)+

subsection \<open>Shields\<close>

lemma worn_refl: "worn s s"
  by (simp add: worn_def)

lemma worn_trans: "worn a b \<Longrightarrow> worn b c \<Longrightarrow> worn a c"
  by (auto simp: worn_def)

lemma worn_damage: "s_active s \<Longrightarrow> worn s (damage_shield s)"
  by (auto simp: worn_def damage_shield_def shield_ok_def Let_def)

lemma damage_shield_health: "s_health (damage_shield s) = s_health s - 1"
  by (simp add: damage_shield_def Let_def)

lemma hit_shields_type: "hit_shields (b\<lparr>e_type := t\<rparr>) ss = hit_shields b ss"
  by (induction ss) (simp_all add: shield_overlap_def)

lemma hit_shields_Some:
  "hit_shields b ss = Some ss' \<Longrightarrow>
   \<exists>i < length ss. s_active (ss ! i) \<and> shield_overlap b (ss ! i) \<and>
      (\<forall>j < i. \<not> (s_active (ss ! j) \<and> shield_overlap b (ss ! j))) \<and>
      ss' = ss[i := damage_shield (ss ! i)]"
proof (induction ss arbitrary: ss')
  case Nil
  then show ?case by simp
next
  case (Cons s ss)
  show ?case
  proof (cases "s_active s \<and> shield_overlap b s")
    case True
    with Cons.prems have "ss' = (s # ss)[0 := damage_shield ((s # ss) ! 0)]" by auto
    with True show ?thesis by (intro exI [of _ 0]) simp
  next
    case False
    with Cons.prems obtain t where t: "hit_shields b ss = Some t" "ss' = s # t"
      by auto
    from Cons.IH [OF t(1)] obtain i where i: "i < length ss" "s_active (ss ! i)"
      "shield_overlap b (ss ! i)"
      "\<forall>j < i. \<not> (s_active (ss ! j) \<and> shield_overlap b (ss ! j))"
      "t = ss[i := damage_shield (ss ! i)]"
      by blast
    have "\<forall>j < Suc i. \<not> (s_active ((s # ss) ! j) \<and> shield_overlap b ((s # ss) ! j))"
      using False i(4) by (auto simp: less_Suc_eq_0_disj)
    with i t(2) show ?thesis by (intro exI [of _ "Suc i"]) simp
  qed
qed

lemma hit_shields_None:
  "hit_shields b ss = None \<longleftrightarrow> (\<forall>s \<in> set ss. \<not> (s_active s \<and> shield_overlap b s))"
  by (induction ss) auto

lemma list_all2_worn_update:
  assumes "i < length ss" "s_active (ss ! i)"
  shows "list_all2 worn ss (ss[i := damage_shield (ss ! i)])"
  using assms
  by (auto simp: list_all2_conv_all_nth nth_list_update worn_refl worn_damage)

lemma hit_shields_worn: "hit_shields b ss = Some ss' \<Longrightarrow> list_all2 worn ss ss'"
  using hit_shields_Some [of b ss ss'] list_all2_worn_update by blast

lemma list_all2_worn_refl: "list_all2 worn ss ss"
  by (simp add: list_all2_refl worn_refl)

lemma list_all2_worn_trans:
  "list_all2 worn a b \<Longrightarrow> list_all2 worn b c \<Longrightarrow> list_all2 worn a c"
  using list_all2_trans [of worn worn worn a b c] worn_trans by blast

lemma bullet_step_worn: "list_all2 worn (shields m) (shields (snd (bullet_step dt b m)))"
  by (simp add: bullet_step_shields list_all2_worn_refl hit_shields_worn split: option.splits)

lemma bullets_loop_worn: "list_all2 worn (shields m) (shields (snd (bullets_loop dt bs m)))"
proof (induction bs arbitrary: m)
  case Nil
  then show ?case by (simp add: list_all2_worn_refl)
next
  case (Cons b bs)
  obtain b' m1 where s: "bullet_step dt b m = (b', m1)" by (cases "bullet_step dt b m")
  obtain bs' m2 where l: "bullets_loop dt bs m1 = (bs', m2)" by (cases "bullets_loop dt bs m1")
  have "list_all2 worn (shields m) (shields m1)"
    using bullet_step_worn [of m dt b] s by simp
  moreover have "list_all2 worn (shields m1) (shields m2)"
    using Cons.IH [of m1] l by simp
  ultimately show ?case
    using s l by (simp add: list_all2_worn_trans)
qed

lemma before_level_check_shields [simp]:
  "shields (fst (fst (before_level_check dt r m))) = shields m"
  by (simp add: before_level_check_def Let_def split: prod.splits)
    (metis fst_conv update_ufo_frame(1) update_player_frame(1) update_timers_frame(1))

lemma after_level_check_worn:
  "list_all2 worn (shields m) (shields (fst (after_level_check dt t r m)))"
proof -
  obtain m5 r5 where f: "enemy_fire r (move_enemies dt t m) = (m5, r5)"
    by (cases "enemy_fire r (move_enemies dt t m)")
  obtain bs m6 where l: "bullets_loop dt (bullets m5) m5 = (bs, m6)"
    by (cases "bullets_loop dt (bullets m5) m5")
  have "shields m5 = shields m"
    using enemy_fire_frame(1) [of r "move_enemies dt t m"] f by simp
  then have "list_all2 worn (shields m) (shields m6)"
    using bullets_loop_worn [of m5 dt "bullets m5"] l by simp
  then show ?thesis
    using f l by (simp add: after_level_check_def Let_def)
qed

lemma playing_step_worn:
  "list_all2 worn (shields m) (shields (fst (playing_step dt r m)))"
proof -
  obtain m3 n t r2 where b: "before_level_check dt r m = ((m3, n, t), r2)"
    by (metis prod.exhaust)
  have "shields m3 = shields m"
    using before_level_check_shields [of dt r m] b by simp
  then show ?thesis
    using after_level_check_worn [of m3 dt t r2] b
    by (simp add: playing_step_def list_all2_worn_refl)
qed

lemma model_update_worn:
  "model_update dt r m = Running (m', r') \<Longrightarrow> list_all2 worn (shields m) (shields m')"
  using playing_step_worn [of m dt r]
  by (auto simp: model_update_def Let_def list_all2_worn_refl split: if_splits)

lemma run_steps_worn:
  "run_steps dts r m = Running (m', r') \<Longrightarrow> list_all2 worn (shields m) (shields m')"
proof (induction dts arbitrary: r m)
  case Nil
  then show ?case by (simp add: list_all2_worn_refl)
next
  case (Cons dt dts)
  then obtain m1 r1 where s: "model_update dt r m = Running (m1, r1)"
    and rest: "run_steps dts r1 m1 = Running (m', r')"
    by (auto split: outcome.splits)
  show ?case
    using model_update_worn [OF s] Cons.IH [OF rest] by (rule list_all2_worn_trans)
qed

lemma init_shields_ok: "list_all shield_ok (shields (init_shields m))"
  by (simp add: init_shields_def init_shield_def shield_ok_def game_constants list_all_iff)

lemma move_bullet_type: "move_bullet dt (b\<lparr>e_type := t\<rparr>) = (move_bullet dt b)\<lparr>e_type := t\<rparr>"
  by (simp add: move_bullet_def Let_def)

lemma bullet_step_shields_type:
  "shields (snd (bullet_step dt (b\<lparr>e_type := t\<rparr>) m)) = shields (snd (bullet_step dt b m))"
  by (simp add: bullet_step_shields move_bullet_type hit_shields_type)

lemma list_all2_worn_facts:
  assumes "list_all2 worn ss ss'"
  shows "length ss' = length ss"
    and "\<forall>i < length ss. s_health (ss' ! i) \<le> s_health (ss ! i)"
    and "list_all shield_ok ss \<longrightarrow> list_all shield_ok ss'"
  using assms
  by (auto simp: list_all2_conv_all_nth worn_def list_all_length)

lemma shield_game_run:
  "(case run_steps [1 / 60] quiet_rng shield_game of
      Exited \<Rightarrow> False
    | Running (m', r') \<Rightarrow>
        map s_health (shields m') = [9, 10, 10, 10] \<and>
        map s_active (shields m') = [True, True, True, True] \<and>
        map e_active (take 2 (bullets m')) = [False, False])"
  by code_simp

lemma shield_game_shields:
  "map s_health (shields shield_game) = [10, 10, 10, 10]"
  "list_all shield_ok (shields shield_game)"
  by code_simp+

lemma damage_shield_active:
  "s_active s \<Longrightarrow>
   damage_shield s = s\<lparr>s_health := s_health s - 1, s_active := 0 < s_health s - 1\<rparr>"
  by (cases s) (auto simp: damage_shield_def Let_def)

lemma hit_shields_None_nth:
  "hit_shields b ss = None \<longleftrightarrow>
     (\<forall>i < length ss. \<not> (s_active (ss ! i) \<and> shield_overlap b (ss ! i)))"
  unfolding hit_shields_None by (metis in_set_conv_nth)

lemma hit_shields_first:
  assumes "i < length ss" and "s_active (ss ! i)" and "shield_overlap b (ss ! i)"
    and "\<forall>j < i. \<not> (s_active (ss ! j) \<and> shield_overlap b (ss ! j))"
  shows "hit_shields b ss =
           Some (ss[i := (ss ! i)\<lparr>s_health := s_health (ss ! i) - 1,
                                  s_active := 0 < s_health (ss ! i) - 1\<rparr>])"
proof -
  have "hit_shields b ss \<noteq> None"
    using assms(1-3) by (auto simp: hit_shields_None_nth)
  then obtain ss' where s: "hit_shields b ss = Some ss'" by auto
  from hit_shields_Some [OF s] obtain k where k: "k < length ss" "s_active (ss ! k)"
    "shield_overlap b (ss ! k)"
    "\<forall>j < k. \<not> (s_active (ss ! j) \<and> shield_overlap b (ss ! j))"
    "ss' = ss[k := damage_shield (ss ! k)]"
    by blast
  have "k = i"
  proof (rule ccontr)
    assume "k \<noteq> i"
    then consider "k < i" | "i < k" by linarith
    then show False
    proof cases
      case 1
      then show False using assms(4) k(2,3) by blast
    next
      case 2
      then show False using k(4) assms(2,3) by blast
    qed
  qed
  then show ?thesis
    using s k(5) assms(2) by (simp add: damage_shield_active)
qed

lemma bullet_step_hit:
  assumes "e_active b"
    and "\<not> (e_y (move_bullet dt b) < - 10 \<or> e_y (move_bullet dt b) > of_int GAME_HEIGHT)"
    and "hit_shields (move_bullet dt b) (shields m) = Some ss'"
  shows "bullet_step dt b m = ((move_bullet dt b)\<lparr>e_active := False\<rparr>, m\<lparr>shields := ss'\<rparr>)"
  using assms by (simp add: bullet_step_def Let_def)

lemma last_hit_game_run:
  "map s_health (shields last_hit_game) = [1, 10, 10, 10] \<and>
   list_all shield_ok (shields last_hit_game) \<and>
   (case run_steps [1 / 60] quiet_rng last_hit_game of
      Exited \<Rightarrow> False
    | Running (m', r') \<Rightarrow>
        map s_health (shields m') = [0, 10, 10, 10] \<and>
        map s_active (shields m') = [False, True, True, True] \<and>
        map e_active (take 1 (bullets m')) = [False])"
  by code_simp

lemma falling_bullet_hits:
  "shield_overlap (move_bullet (1 / 60) falling_bullet) (shields last_hit_game ! 0)"
  "s_active (shields last_hit_game ! 0)" "length (shields last_hit_game) = 4"
  "e_type falling_bullet = ENTITY_BULLET_ENEMY"
  by code_simp+



subsection \<open>Lives and the invulnerability timer\<close>

lemma bullet_vs_player_invulnerable:
  "0 < hit_timer m \<Longrightarrow> bullet_vs_player b m = (b, m)"
  by (simp add: bullet_vs_player_def)

lemma bullet_vs_player_cases:
  "(snd (bullet_vs_player b m) = m) \<or>
   (hit_timer m \<le> 0 \<and> lives (snd (bullet_vs_player b m)) = lives m - 1 \<and>
    hit_timer (snd (bullet_vs_player b m)) = 2 \<and>
    state (snd (bullet_vs_player b m)) =
      (if lives m - 1 \<le> 0 then STATE_GAME_OVER else state m))"
  by (simp add: bullet_vs_player_def Let_def)

lemma bullet_step_snd:
  "snd (bullet_step dt b m) = m \<or>
   snd (bullet_step dt b m) = m\<lparr>shields := shields (snd (bullet_step dt b m))\<rparr> \<or>
   snd (bullet_step dt b m) = snd (bullet_vs_targets (move_bullet dt b) m) \<or>
   snd (bullet_step dt b m) = snd (bullet_vs_player (move_bullet dt b) m)"
  by (cases "e_active b";
      cases "e_y (move_bullet dt b) < - 10 \<or> e_y (move_bullet dt b) > of_int GAME_HEIGHT";
      cases "hit_shields (move_bullet dt b) (shields m)";
      cases "e_type (move_bullet dt b) = ENTITY_BULLET_PLAYER")
    (simp_all add: bullet_step_def Let_def)

lemma bullet_step_cases:
  "(lives m \<le> lives (snd (bullet_step dt b m)) \<and>
    hit_timer (snd (bullet_step dt b m)) = hit_timer m \<and>
    state (snd (bullet_step dt b m)) = state m) \<or>
   (hit_timer m \<le> 0 \<and> lives (snd (bullet_step dt b m)) = lives m - 1 \<and>
    hit_timer (snd (bullet_step dt b m)) = 2 \<and>
    state (snd (bullet_step dt b m)) =
      (if lives m - 1 \<le> 0 then STATE_GAME_OVER else state m))"
proof -
  let ?b = "move_bullet dt b"
  consider (idle) "snd (bullet_step dt b m) = m"
    | (shield) "snd (bullet_step dt b m) = m\<lparr>shields := shields (snd (bullet_step dt b m))\<rparr>"
    | (targets) "snd (bullet_step dt b m) = snd (bullet_vs_targets ?b m)"
    | (player) "snd (bullet_step dt b m) = snd (bullet_vs_player ?b m)"
    using bullet_step_snd [of dt b m] by blast
  then show ?thesis
  proof cases
    case idle
    then show ?thesis by simp
  next
    case shield
    have "lives (m\<lparr>shields := shields (snd (bullet_step dt b m))\<rparr>) = lives m"
      "hit_timer (m\<lparr>shields := shields (snd (bullet_step dt b m))\<rparr>) = hit_timer m"
      "state (m\<lparr>shields := shields (snd (bullet_step dt b m))\<rparr>) = state m"
      by simp_all
    then show ?thesis using shield by simp
  next
    case targets
    then show ?thesis using bullet_vs_targets_lives [of m ?b] by simp
  next
    case player
    then show ?thesis using bullet_vs_player_cases [of ?b m] by auto
  qed
qed

lemma bullets_loop_invulnerable:
  "0 < hit_timer m \<Longrightarrow>
   lives m \<le> lives (snd (bullets_loop dt bs m)) \<and>
   hit_timer (snd (bullets_loop dt bs m)) = hit_timer m \<and>
   state (snd (bullets_loop dt bs m)) = state m"
proof (induction bs arbitrary: m)
  case Nil
  then show ?case by simp
next
  case (Cons b bs)
  obtain b' m1 where s: "bullet_step dt b m = (b', m1)" by (cases "bullet_step dt b m")
  obtain bs' m2 where l: "bullets_loop dt bs m1 = (bs', m2)" by (cases "bullets_loop dt bs m1")
  have 1: "lives m \<le> lives m1 \<and> hit_timer m1 = hit_timer m \<and> state m1 = state m"
    using bullet_step_cases [of m dt b] s Cons.prems by auto
  then have "0 < hit_timer m1" using Cons.prems by simp
  from Cons.IH [OF this] l
  have "lives m1 \<le> lives m2 \<and> hit_timer m2 = hit_timer m1 \<and> state m2 = state m1" by simp
  with 1 show ?case using s l by simp
qed

lemma bullets_loop_lives:
  "lives m - 1 \<le> lives (snd (bullets_loop dt bs m)) \<and>
   (lives (snd (bullets_loop dt bs m)) < lives m \<longrightarrow> hit_timer m \<le> 0) \<and>
   (2 \<le> lives m \<longrightarrow> state (snd (bullets_loop dt bs m)) = state m)"
proof (induction bs arbitrary: m)
  case Nil
  then show ?case by simp
next
  case (Cons b bs)
  obtain b' m1 where s: "bullet_step dt b m = (b', m1)" by (cases "bullet_step dt b m")
  obtain bs' m2 where l: "bullets_loop dt bs m1 = (bs', m2)" by (cases "bullets_loop dt bs m1")
  have r: "snd (bullets_loop dt (b # bs) m) = m2" using s l by simp
  consider (quiet) "lives m \<le> lives m1" "hit_timer m1 = hit_timer m" "state m1 = state m"
    | (hit) "hit_timer m \<le> 0" "lives m1 = lives m - 1" "hit_timer m1 = 2"
        "state m1 = (if lives m - 1 \<le> 0 then STATE_GAME_OVER else state m)"
    using bullet_step_cases [of m dt b] s by auto
  then show ?case
  proof cases
    case quiet
    from Cons.IH [of m1] l
    have "lives m1 - 1 \<le> lives m2 \<and> (lives m2 < lives m1 \<longrightarrow> hit_timer m1 \<le> 0) \<and>
          (2 \<le> lives m1 \<longrightarrow> state m2 = state m1)" by simp
    with quiet show ?thesis unfolding r by auto
  next
    case hit
    have "0 < hit_timer m1" using hit by simp
    from bullets_loop_invulnerable [OF this, of dt bs] l
    have "lives m1 \<le> lives m2 \<and> hit_timer m2 = hit_timer m1 \<and> state m2 = state m1" by simp
    with hit show ?thesis unfolding r by auto
  qed
qed

text \<open>The whole step.\<close>

lemma hit_timer_update_timers:
  "hit_timer (update_timers dt m) = (if 0 < hit_timer m then hit_timer m - dt else hit_timer m)"
  by (simp add: update_timers_def Let_def)

lemma before_level_check_frame [simp]:
  "lives (fst (fst (before_level_check dt r m))) = lives m"
  "state (fst (fst (before_level_check dt r m))) = state m"
  "level (fst (fst (before_level_check dt r m))) = level m"
  "hit_timer (fst (fst (before_level_check dt r m))) = hit_timer (update_timers dt m)"
  "player (fst (fst (before_level_check dt r m))) = player (update_player dt (update_timers dt m))"
proof -
  obtain m2 r2 where u: "update_ufo dt r (update_player dt (update_timers dt m)) = (m2, r2)"
    by (cases "update_ufo dt r (update_player dt (update_timers dt m))")
  have m2: "lives m2 = lives m" "state m2 = state m" "level m2 = level m"
    "hit_timer m2 = hit_timer (update_timers dt m)"
    "player m2 = player (update_player dt (update_timers dt m))"
    using update_ufo_frame [of dt r "update_player dt (update_timers dt m)"] u by simp_all
  show "lives (fst (fst (before_level_check dt r m))) = lives m"
    "state (fst (fst (before_level_check dt r m))) = state m"
    "level (fst (fst (before_level_check dt r m))) = level m"
    "hit_timer (fst (fst (before_level_check dt r m))) = hit_timer (update_timers dt m)"
    "player (fst (fst (before_level_check dt r m))) = player (update_player dt (update_timers dt m))"
    using u m2 by (simp_all add: before_level_check_def Let_def split: prod.splits)
qed

lemma after_level_check_lives:
  "lives m - 1 \<le> lives (fst (after_level_check dt t r m)) \<and>
   (lives (fst (after_level_check dt t r m)) < lives m \<longrightarrow> hit_timer m \<le> 0) \<and>
   (2 \<le> lives m \<longrightarrow> state (fst (after_level_check dt t r m)) = state m) \<and>
   (0 < hit_timer m \<longrightarrow>
      lives m \<le> lives (fst (after_level_check dt t r m)) \<and>
      hit_timer (fst (after_level_check dt t r m)) = hit_timer m \<and>
      state (fst (after_level_check dt t r m)) = state m)"
proof -
  obtain m5 r5 where f: "enemy_fire r (move_enemies dt t m) = (m5, r5)"
    by (cases "enemy_fire r (move_enemies dt t m)")
  obtain bs m6 where l: "bullets_loop dt (bullets m5) m5 = (bs, m6)"
    by (cases "bullets_loop dt (bullets m5) m5")
  have m5: "lives m5 = lives m" "hit_timer m5 = hit_timer m" "state m5 = state m"
    using enemy_fire_frame [of r "move_enemies dt t m"] f by simp_all
  have r: "lives (fst (after_level_check dt t r m)) = lives m6"
    "hit_timer (fst (after_level_check dt t r m)) = hit_timer m6"
    "state (fst (after_level_check dt t r m)) = state m6"
    using f l by (simp_all add: after_level_check_def Let_def)
  show ?thesis
    unfolding r
    using bullets_loop_lives [of m5 dt "bullets m5"]
      bullets_loop_invulnerable [of m5 dt "bullets m5"] l m5
    by auto
qed

lemma playing_step_lives:
  "lives m - 1 \<le> lives (fst (playing_step dt r m)) \<and>
   (lives (fst (playing_step dt r m)) < lives m \<longrightarrow> hit_timer (update_timers dt m) \<le> 0) \<and>
   (2 \<le> lives m \<longrightarrow> state (fst (playing_step dt r m)) = state m) \<and>
   (0 < hit_timer (update_timers dt m) \<longrightarrow>
      lives m \<le> lives (fst (playing_step dt r m)) \<and>
      hit_timer (fst (playing_step dt r m)) = hit_timer (update_timers dt m) \<and>
      state (fst (playing_step dt r m)) = state m)"
proof -
  obtain m3 n t r2 where b: "before_level_check dt r m = ((m3, n, t), r2)"
    by (metis prod.exhaust)
  have m3: "lives m3 = lives m" "state m3 = state m"
    "hit_timer m3 = hit_timer (update_timers dt m)"
    using before_level_check_frame [of dt r m] b by simp_all
  show ?thesis
  proof (cases "n = 0 \<and> \<not> u_active (ufo m3)")
    case True
    then have "fst (playing_step dt r m) = next_level m3"
      using b by (simp add: playing_step_def)
    then show ?thesis using m3 by simp
  next
    case False
    then have "fst (playing_step dt r m) = fst (after_level_check dt t r2 m3)"
      using b by (auto simp: playing_step_def)
    then show ?thesis using after_level_check_lives [of m3 dt t r2] m3 by simp
  qed
qed

lemma move_bullet_y: "e_y (move_bullet dt b) = e_y b + e_dy b * dt"
  "e_active (move_bullet dt b) = e_active b" "e_type (move_bullet dt b) = e_type b"
  by (simp_all add: move_bullet_def Let_def)

lemma bullet_step_invulnerable:
  assumes "e_active b" and "e_type b \<noteq> ENTITY_BULLET_PLAYER" and "0 < hit_timer m"
    and "\<not> (e_y (move_bullet dt b) < - 10 \<or> e_y (move_bullet dt b) > of_int GAME_HEIGHT)"
    and "hit_shields (move_bullet dt b) (shields m) = None"
  shows "bullet_step dt b m = (move_bullet dt b, m)"
  using assms
  by (simp add: bullet_step_def Let_def move_bullet_y bullet_vs_player_invulnerable)

lemma model_update_playing:
  "state m = STATE_PLAYING \<Longrightarrow> model_update dt r m = Running (playing_step dt r m)"
  by (simp add: model_update_def)

text \<open>
  C10. While \<open>hit_timer\<close> is positive the test of a bullet against the player changes
  neither the bullet nor the model. An active bullet that is not the player's, stays in
  the playfield and hits no shield therefore comes out of its loop iteration moved and
  active, the model unchanged, even when it overlaps the player. Over a whole step in
  \<open>STATE_PLAYING\<close>: lives decrease only if the timer, as the step has decremented it,
  is at most 0; and if that timer is positive, lives do not decrease, the timer keeps
  its decremented value and the state stays \<open>STATE_PLAYING\<close>.
\<close>

theorem invulnerable_player_not_hit:
  "(0 < hit_timer model \<longrightarrow> bullet_vs_player b model = (b, model)) \<and>
   (e_active b \<and> e_type b \<noteq> ENTITY_BULLET_PLAYER \<and> 0 < hit_timer model \<and>
    \<not> (e_y (move_bullet dt b) < - 10 \<or> e_y (move_bullet dt b) > of_int GAME_HEIGHT) \<and>
    hit_shields (move_bullet dt b) (shields model) = None \<and>
    check_collision (move_bullet dt b) (player model) \<longrightarrow>
      bullet_step dt b model = (move_bullet dt b, model) \<and>
      e_active (move_bullet dt b) \<and> e_y (move_bullet dt b) = e_y b + e_dy b * dt) \<and>
   (state model = STATE_PLAYING \<longrightarrow>
      (case model_update dt r model of
         Exited \<Rightarrow> False
       | Running (model', r') \<Rightarrow>
           (lives model' < lives model \<longrightarrow>
              (if 0 < hit_timer model then hit_timer model - dt else hit_timer model) \<le> 0) \<and>
           (0 < (if 0 < hit_timer model then hit_timer model - dt else hit_timer model) \<longrightarrow>
              lives model \<le> lives model' \<and> hit_timer model' = hit_timer model - dt \<and>
              state model' = STATE_PLAYING)))"
proof (intro conjI impI)
  assume "0 < hit_timer model"
  then show "bullet_vs_player b model = (b, model)"
    by (rule bullet_vs_player_invulnerable)
next
  assume a: "e_active b \<and> e_type b \<noteq> ENTITY_BULLET_PLAYER \<and> 0 < hit_timer model \<and>
    \<not> (e_y (move_bullet dt b) < - 10 \<or> e_y (move_bullet dt b) > of_int GAME_HEIGHT) \<and>
    hit_shields (move_bullet dt b) (shields model) = None \<and>
    check_collision (move_bullet dt b) (player model)"
  then show "bullet_step dt b model = (move_bullet dt b, model)"
    by (intro bullet_step_invulnerable) simp_all
  from a show "e_active (move_bullet dt b)" by (simp add: move_bullet_y)
  show "e_y (move_bullet dt b) = e_y b + e_dy b * dt" by (simp add: move_bullet_y)
next
  assume p: "state model = STATE_PLAYING"
  obtain model' r' where s: "playing_step dt r model = (model', r')"
    by (cases "playing_step dt r model")
  have t: "hit_timer (update_timers dt model) =
      (if 0 < hit_timer model then hit_timer model - dt else hit_timer model)"
    by (rule hit_timer_update_timers)
  have "(lives model' < lives model \<longrightarrow> hit_timer (update_timers dt model) \<le> 0) \<and>
        (0 < hit_timer (update_timers dt model) \<longrightarrow>
           lives model \<le> lives model' \<and>
           hit_timer model' = hit_timer (update_timers dt model) \<and> state model' = state model)"
    using playing_step_lives [of model dt r] s by simp
  then have "(lives model' < lives model \<longrightarrow>
              (if 0 < hit_timer model then hit_timer model - dt else hit_timer model) \<le> 0) \<and>
           (0 < (if 0 < hit_timer model then hit_timer model - dt else hit_timer model) \<longrightarrow>
              lives model \<le> lives model' \<and> hit_timer model' = hit_timer model - dt \<and>
              state model' = STATE_PLAYING)"
    unfolding t using p by (auto split: if_splits)
  then show "case model_update dt r model of
         Exited \<Rightarrow> False
       | Running (model', r') \<Rightarrow>
           (lives model' < lives model \<longrightarrow>
              (if 0 < hit_timer model then hit_timer model - dt else hit_timer model) \<le> 0) \<and>
           (0 < (if 0 < hit_timer model then hit_timer model - dt else hit_timer model) \<longrightarrow>
              lives model \<le> lives model' \<and> hit_timer model' = hit_timer model - dt \<and>
              state model' = STATE_PLAYING)"
    using model_update_playing [OF p, of dt r] s by simp
qed

lemma invulnerable_game_facts:
  "hit_timer invulnerable_game = 1" "state invulnerable_game = STATE_PLAYING"
  "lives invulnerable_game = 3"
  "check_collision (move_bullet (1 / 60) overlapping_bullet) (player invulnerable_game)"
  "hit_shields (move_bullet (1 / 60) overlapping_bullet) (shields invulnerable_game) = None"
  "e_active overlapping_bullet" "e_type overlapping_bullet = ENTITY_BULLET_ENEMY"
  "e_y (move_bullet (1 / 60) overlapping_bullet) = 233 / 5"
  by code_simp+

lemma invulnerable_game_run:
  "(case model_update (1 / 60) quiet_rng invulnerable_game of
      Exited \<Rightarrow> False
    | Running (m', r') \<Rightarrow>
        map e_active (take 1 (bullets m')) = [True] \<and>
        map e_y (take 1 (bullets m')) = [233 / 5])"
  by code_simp

lemma vulnerable_game_run:
  "hit_timer vulnerable_game = 0 \<and> lives vulnerable_game = 3 \<and>
   state vulnerable_game = STATE_PLAYING \<and>
   (case model_update (1 / 60) quiet_rng vulnerable_game of
      Exited \<Rightarrow> False
    | Running (m', r') \<Rightarrow>
        lives m' = 2 \<and> hit_timer m' = 2 \<and> map e_active (take 1 (bullets m')) = [False])"
  by code_simp

theorem invulnerable_player_not_hit_witness:
  "0 < hit_timer invulnerable_game \<and> state invulnerable_game = STATE_PLAYING \<and>
   lives invulnerable_game = 3 \<and>
   e_active overlapping_bullet \<and> e_type overlapping_bullet = ENTITY_BULLET_ENEMY \<and>
   check_collision (move_bullet (1 / 60) overlapping_bullet) (player invulnerable_game) \<and>
   bullet_step (1 / 60) overlapping_bullet invulnerable_game =
     (move_bullet (1 / 60) overlapping_bullet, invulnerable_game) \<and>
   e_active (move_bullet (1 / 60) overlapping_bullet) \<and>
   e_y (move_bullet (1 / 60) overlapping_bullet) = 233 / 5 \<and>
   (case model_update (1 / 60) quiet_rng invulnerable_game of
      Exited \<Rightarrow> False
    | Running (m', r') \<Rightarrow>
        lives m' \<ge> 3 \<and> hit_timer m' = 59 / 60 \<and> state m' = STATE_PLAYING \<and>
        map e_active (take 1 (bullets m')) = [True] \<and>
        map e_y (take 1 (bullets m')) = [233 / 5]) \<and>
   hit_timer vulnerable_game = 0 \<and> lives vulnerable_game = 3 \<and>
   (case model_update (1 / 60) quiet_rng vulnerable_game of
      Exited \<Rightarrow> False
    | Running (m', r') \<Rightarrow> lives m' = 2 \<and> hit_timer m' = 2)"
  using invulnerable_player_not_hit [of invulnerable_game overlapping_bullet "1 / 60" quiet_rng]
    invulnerable_player_not_hit [of vulnerable_game overlapping_bullet "1 / 60" quiet_rng]
    invulnerable_game_facts invulnerable_game_run vulnerable_game_run
  by (auto simp: game_constants split: outcome.splits)


subsection \<open>The position of the player\<close>

lemma bullets_loop_hit:
  "(lives (snd (bullets_loop dt bs m)) < lives m \<longrightarrow> hit_timer (snd (bullets_loop dt bs m)) = 2) \<and>
   (state (snd (bullets_loop dt bs m)) = state m \<or>
    state (snd (bullets_loop dt bs m)) = STATE_GAME_OVER)"
proof (induction bs arbitrary: m)
  case Nil
  then show ?case by simp
next
  case (Cons b bs)
  obtain b' m1 where s: "bullet_step dt b m = (b', m1)" by (cases "bullet_step dt b m")
  obtain bs' m2 where l: "bullets_loop dt bs m1 = (bs', m2)" by (cases "bullets_loop dt bs m1")
  have r: "snd (bullets_loop dt (b # bs) m) = m2" using s l by simp
  consider (quiet) "lives m \<le> lives m1" "hit_timer m1 = hit_timer m" "state m1 = state m"
    | (hit) "hit_timer m \<le> 0" "lives m1 = lives m - 1" "hit_timer m1 = 2"
        "state m1 = (if lives m - 1 \<le> 0 then STATE_GAME_OVER else state m)"
    using bullet_step_cases [of m dt b] s by auto
  then show ?case
  proof cases
    case quiet
    from Cons.IH [of m1] l
    have "(lives m2 < lives m1 \<longrightarrow> hit_timer m2 = 2) \<and>
          (state m2 = state m1 \<or> state m2 = STATE_GAME_OVER)" by simp
    with quiet show ?thesis unfolding r by auto
  next
    case hit
    have "0 < hit_timer m1" using hit by simp
    from bullets_loop_invulnerable [OF this, of dt bs] l
    have "lives m1 \<le> lives m2 \<and> hit_timer m2 = hit_timer m1 \<and> state m2 = state m1" by simp
    with hit show ?thesis unfolding r by auto
  qed
qed

lemma after_level_check_hit:
  "(lives (fst (after_level_check dt t r m)) < lives m \<longrightarrow>
      hit_timer (fst (after_level_check dt t r m)) = 2) \<and>
   (state (fst (after_level_check dt t r m)) = state m \<or>
    state (fst (after_level_check dt t r m)) = STATE_GAME_OVER) \<and>
   player (fst (after_level_check dt t r m)) = player m \<and>
   level (fst (after_level_check dt t r m)) = level m"
proof -
  obtain m5 r5 where f: "enemy_fire r (move_enemies dt t m) = (m5, r5)"
    by (cases "enemy_fire r (move_enemies dt t m)")
  obtain bs m6 where l: "bullets_loop dt (bullets m5) m5 = (bs, m6)"
    by (cases "bullets_loop dt (bullets m5) m5")
  have m5: "lives m5 = lives m" "state m5 = state m" "player m5 = player m" "level m5 = level m"
    using enemy_fire_frame [of r "move_enemies dt t m"] f by simp_all
  have r: "lives (fst (after_level_check dt t r m)) = lives m6"
    "hit_timer (fst (after_level_check dt t r m)) = hit_timer m6"
    "state (fst (after_level_check dt t r m)) = state m6"
    "player (fst (after_level_check dt t r m)) = player m6"
    "level (fst (after_level_check dt t r m)) = level m6"
    using f l by (simp_all add: after_level_check_def Let_def)
  show ?thesis
    unfolding r
    using bullets_loop_hit [of dt "bullets m5" m5] bullets_loop_frame [of dt "bullets m5" m5] l m5
    by auto
qed

lemma playing_step_hit:
  "(lives (fst (playing_step dt r m)) < lives m \<longrightarrow> hit_timer (fst (playing_step dt r m)) = 2) \<and>
   (state (fst (playing_step dt r m)) = state m \<or>
    state (fst (playing_step dt r m)) = STATE_GAME_OVER) \<and>
   player (fst (playing_step dt r m)) = player (update_player dt (update_timers dt m))"
proof -
  obtain m3 n t r2 where b: "before_level_check dt r m = ((m3, n, t), r2)"
    by (metis prod.exhaust)
  have m3: "lives m3 = lives m" "state m3 = state m"
    "player m3 = player (update_player dt (update_timers dt m))"
    using before_level_check_frame [of dt r m] b by simp_all
  show ?thesis
  proof (cases "n = 0 \<and> \<not> u_active (ufo m3)")
    case True
    then have "fst (playing_step dt r m) = next_level m3"
      using b by (simp add: playing_step_def)
    then show ?thesis using m3 by simp
  next
    case False
    then have "fst (playing_step dt r m) = fst (after_level_check dt t r2 m3)"
      using b by (auto simp: playing_step_def)
    then show ?thesis using after_level_check_hit [of dt t r2 m3] m3 by simp
  qed
qed

lemma player_update_timers:
  "e_x (player (update_timers dt m)) = e_x (player m)"
  "e_dx (player (update_timers dt m)) = e_dx (player m)"
  "e_active (player (update_timers dt m)) = e_active (player m)"
  by (simp_all add: update_timers_def Let_def)

lemma player_update_player:
  "e_dx (player (update_player dt m)) = e_dx (player m)"
  "e_active (player (update_player dt m)) = e_active (player m)"
  "e_active (player m) \<Longrightarrow>
     e_x (player (update_player dt m)) =
       min (of_int (GAME_WIDTH - PLAYER_WIDTH)) (max 0 (e_x (player m) + e_dx (player m) * dt))"
  by (auto simp: update_player_def Let_def min_def max_def game_constants)

lemma playing_step_player:
  "e_dx (player (fst (playing_step dt r m))) = e_dx (player m)"
  "e_active (player (fst (playing_step dt r m))) = e_active (player m)"
  "e_active (player m) \<Longrightarrow>
     e_x (player (fst (playing_step dt r m))) =
       min (of_int (GAME_WIDTH - PLAYER_WIDTH)) (max 0 (e_x (player m) + e_dx (player m) * dt))"
  using playing_step_hit [of dt r m]
  by (simp_all add: player_update_player player_update_timers)

lemma model_update_game_over:
  "state m = STATE_GAME_OVER \<Longrightarrow>
   model_update dt r m = Running (m\<lparr>game_over_timer := game_over_timer m + dt\<rparr>, r)"
  by (simp add: model_update_def)

lemma run_steps_game_over:
  "state m = STATE_GAME_OVER \<Longrightarrow>
   (case run_steps dts r m of
      Exited \<Rightarrow> False
    | Running (m', r') \<Rightarrow> state m' = STATE_GAME_OVER \<and> player m' = player m)"
proof (induction dts arbitrary: m)
  case Nil
  then show ?case by simp
next
  case (Cons dt dts)
  let ?m1 = "m\<lparr>game_over_timer := game_over_timer m + dt\<rparr>"
  have "state ?m1 = STATE_GAME_OVER" using Cons.prems by simp
  from Cons.IH [OF this]
  show ?case using Cons.prems by (auto simp: model_update_game_over split: outcome.splits)
qed

lemma clamp_advance:
  "min 95 (max 0 (min 95 (47 + 2 * real k / 3) + 40 * (1 / 60))) =
   min (95 :: real) (47 + 2 * real (Suc k) / 3)"
  by (simp add: min_def max_def field_simps)

lemma run_steps_position:
  assumes "e_active (player m)" and "e_dx (player m) = 40"
    and "e_x (player m) = min 95 (47 + 2 * real k / 3)"
    and "state m = STATE_PLAYING \<or> state m = STATE_GAME_OVER"
  shows "case run_steps (replicate n (1 / 60)) r m of
           Exited \<Rightarrow> False
         | Running (m', r') \<Rightarrow>
             e_x (player m') \<le> 95 \<and>
             (state m' = STATE_PLAYING \<longrightarrow> e_x (player m') = min 95 (47 + 2 * real (k + n) / 3))"
  using assms
proof (induction n arbitrary: m r k)
  case 0
  then show ?case by simp
next
  case (Suc n)
  show ?case
  proof (cases "state m = STATE_PLAYING")
    case True
    obtain m1 r1 where s: "playing_step (1 / 60) r m = (m1, r1)"
      by (cases "playing_step (1 / 60) r m")
    have p: "e_dx (player m1) = 40" "e_active (player m1)"
      "e_x (player m1) = min 95 (max 0 (e_x (player m) + e_dx (player m) * (1 / 60)))"
      using playing_step_player [where dt = "1 / 60" and r = r and m = m] s Suc.prems
      by (simp_all add: game_constants)
    have x1: "e_x (player m1) = min 95 (47 + 2 * real (Suc k) / 3)"
      using p(3) Suc.prems(2,3) clamp_advance [of k] by simp
    have st: "state m1 = STATE_PLAYING \<or> state m1 = STATE_GAME_OVER"
      using playing_step_hit [where dt = "1 / 60" and r = r and m = m] s True by auto
    from Suc.IH [OF p(2) p(1) x1 st, where r = r1]
    show ?thesis
      using True s by (auto simp: model_update_playing split: outcome.splits)
  next
    case False
    then have g: "state m = STATE_GAME_OVER" using Suc.prems by simp
    have "e_x (player m) \<le> 95" using Suc.prems(3) by simp
    then show ?thesis
      using run_steps_game_over [OF g, where dts = "replicate (Suc n) (1 / 60)" and r = r]
      by (auto split: outcome.splits)
  qed
qed

lemma two_lives_stay_in_play:
  assumes "state m = STATE_PLAYING" and "n \<le> 120"
    and "2 \<le> lives m \<or> (1 \<le> lives m \<and> real n / 60 < hit_timer m)"
  shows "case run_steps (replicate n (1 / 60)) r m of
           Exited \<Rightarrow> False
         | Running (m', r') \<Rightarrow> state m' = STATE_PLAYING"
  using assms
proof (induction n arbitrary: m r)
  case 0
  then show ?case by simp
next
  case (Suc n)
  obtain m1 r1 where s: "playing_step (1 / 60) r m = (m1, r1)"
    by (cases "playing_step (1 / 60) r m")
  have n: "n \<le> 120" "real n / 60 < 2" using Suc.prems(2) by simp_all
  have L: "lives m - 1 \<le> lives m1"
    "lives m1 < lives m \<longrightarrow> hit_timer (update_timers (1 / 60) m) \<le> 0"
    "2 \<le> lives m \<longrightarrow> state m1 = state m"
    "0 < hit_timer (update_timers (1 / 60) m) \<longrightarrow>
       lives m \<le> lives m1 \<and> hit_timer m1 = hit_timer (update_timers (1 / 60) m) \<and>
       state m1 = state m"
    using playing_step_lives [where dt = "1 / 60" and r = r and m = m] s by simp_all
  have H: "lives m1 < lives m \<longrightarrow> hit_timer m1 = 2"
    using playing_step_hit [where dt = "1 / 60" and r = r and m = m] s by simp
  have "state m1 = STATE_PLAYING \<and>
        (2 \<le> lives m1 \<or> (1 \<le> lives m1 \<and> real n / 60 < hit_timer m1))"
  proof (cases "2 \<le> lives m")
    case True
    then show ?thesis using L H n Suc.prems(1) by auto
  next
    case False
    then have b: "1 \<le> lives m" "real (Suc n) / 60 < hit_timer m" using Suc.prems(3) by auto
    moreover have "0 \<le> real (Suc n) / 60" by simp
    ultimately have "0 < hit_timer m" by linarith
    then have t: "hit_timer (update_timers (1 / 60) m) = hit_timer m - 1 / 60"
      by (simp add: hit_timer_update_timers)
    have "real n / 60 < hit_timer m - 1 / 60" using b(2) by (simp add: field_simps)
    then show ?thesis using L t b Suc.prems(1) by auto
  qed
  then have "case run_steps (replicate n (1 / 60)) r1 m1 of
           Exited \<Rightarrow> False
         | Running (m', r') \<Rightarrow> state m' = STATE_PLAYING"
    using Suc.IH [where m = m1 and r = r1] n by blast
  then show ?case
    using Suc.prems(1) s by (simp add: model_update_playing)
qed

text \<open>
  C7. In a step in \<open>STATE_PLAYING\<close> with the player active, the new horizontal position
  is the old one plus velocity times \<open>dt\<close>, clamped to
  \<open>[0, GAME_WIDTH - PLAYER_WIDTH] = [0, 95]\<close>, and the player stays active with the
  same velocity. A player at 47 moving right at
  \<open>PLAYER_SPEED = 40\<close> is, after \<open>n \<le> 120\<close> steps of 1/60, never beyond 95, and at
  \<open>min 95 (47 + 2 n / 3)\<close> while the game is still in play; after 120 steps that is 95,
  and a game that starts with two lives or more is still in play then.
\<close>

theorem player_position_clamped:
  assumes "state model = STATE_PLAYING" and "e_active (player model)"
  shows "(case model_update dt r model of
            Exited \<Rightarrow> False
          | Running (model', r') \<Rightarrow>
              e_x (player model') =
                min (of_int (GAME_WIDTH - PLAYER_WIDTH))
                  (max 0 (e_x (player model) + e_dx (player model) * dt)) \<and>
              0 \<le> e_x (player model') \<and> e_x (player model') \<le> 95 \<and>
              e_active (player model') \<and> e_dx (player model') = e_dx (player model)) \<and>
         (e_x (player model) = 47 \<and> e_dx (player model) = PLAYER_SPEED \<longrightarrow>
            (\<forall>n \<le> 120.
               case run_steps (replicate n (1 / 60)) r model of
                 Exited \<Rightarrow> False
               | Running (model', r') \<Rightarrow>
                   e_x (player model') \<le> 95 \<and>
                   (state model' = STATE_PLAYING \<longrightarrow>
                      e_x (player model') = min 95 (47 + 2 * real n / 3))) \<and>
            (case run_steps (replicate 120 (1 / 60)) r model of
               Exited \<Rightarrow> False
             | Running (model', r') \<Rightarrow>
                 (state model' = STATE_PLAYING \<longrightarrow> e_x (player model') = 95) \<and>
                 (2 \<le> lives model \<longrightarrow> state model' = STATE_PLAYING)))"
proof (intro conjI impI)
  obtain m1 r1 where s: "playing_step dt r model = (m1, r1)"
    by (cases "playing_step dt r model")
  have "e_x (player m1) =
      min (of_int (GAME_WIDTH - PLAYER_WIDTH)) (max 0 (e_x (player model) + e_dx (player model) * dt))"
    using playing_step_player(3) [OF assms(2), where dt = dt and r = r] s by simp
  moreover from this have "0 \<le> e_x (player m1) \<and> e_x (player m1) \<le> 95"
    by (simp add: game_constants)
  moreover have "e_active (player m1) \<and> e_dx (player m1) = e_dx (player model)"
    using playing_step_player(1,2) [where dt = dt and r = r and m = model] s assms(2) by simp
  ultimately show "case model_update dt r model of
            Exited \<Rightarrow> False
          | Running (model', r') \<Rightarrow>
              e_x (player model') =
                min (of_int (GAME_WIDTH - PLAYER_WIDTH))
                  (max 0 (e_x (player model) + e_dx (player model) * dt)) \<and>
              0 \<le> e_x (player model') \<and> e_x (player model') \<le> 95 \<and>
              e_active (player model') \<and> e_dx (player model') = e_dx (player model)"
    using s by (simp add: model_update_playing [OF assms(1)])
next
  assume a: "e_x (player model) = 47 \<and> e_dx (player model) = PLAYER_SPEED"
  then have x0: "e_x (player model) = min 95 (47 + 2 * real 0 / 3)"
    and dx: "e_dx (player model) = 40"
    by (simp_all add: game_constants)
  have run: "case run_steps (replicate n (1 / 60)) r model of
                 Exited \<Rightarrow> False
               | Running (model', r') \<Rightarrow>
                   e_x (player model') \<le> 95 \<and>
                   (state model' = STATE_PLAYING \<longrightarrow>
                      e_x (player model') = min 95 (47 + 2 * real n / 3))" for n
    using run_steps_position [OF assms(2) dx x0, where n = n and r = r] assms(1)
    by (auto split: outcome.splits)
  then show "\<forall>n \<le> 120.
               case run_steps (replicate n (1 / 60)) r model of
                 Exited \<Rightarrow> False
               | Running (model', r') \<Rightarrow>
                   e_x (player model') \<le> 95 \<and>
                   (state model' = STATE_PLAYING \<longrightarrow>
                      e_x (player model') = min 95 (47 + 2 * real n / 3))"
    by blast
  have stay: "2 \<le> lives model \<longrightarrow>
      (case run_steps (replicate 120 (1 / 60)) r model of
         Exited \<Rightarrow> False
       | Running (model', r') \<Rightarrow> state model' = STATE_PLAYING)"
    using two_lives_stay_in_play [OF assms(1), where n = 120 and r = r] by simp
  show "case run_steps (replicate 120 (1 / 60)) r model of
               Exited \<Rightarrow> False
             | Running (model', r') \<Rightarrow>
                 (state model' = STATE_PLAYING \<longrightarrow> e_x (player model') = 95) \<and>
                 (2 \<le> lives model \<longrightarrow> state model' = STATE_PLAYING)"
    using run [of 120] stay by (auto split: outcome.splits)
qed

lemma moving_game_facts:
  "state moving_game = STATE_PLAYING" "e_active (player moving_game)"
  "e_x (player moving_game) = 47" "e_dx (player moving_game) = 40" "lives moving_game = 3"
  "e_width (player moving_game) = 5"
  by code_simp+

theorem player_position_clamped_witness:
  "state moving_game = STATE_PLAYING \<and> e_active (player moving_game) \<and>
   e_x (player moving_game) = 47 \<and> e_dx (player moving_game) = 40 \<and>
   e_width (player moving_game) = 5 \<and> lives moving_game = 3 \<and>
   (case model_update (1 / 60) quiet_rng moving_game of
      Exited \<Rightarrow> False
    | Running (m', r') \<Rightarrow> e_x (player m') = 143 / 3) \<and>
   (case run_steps (replicate 120 (1 / 60)) quiet_rng moving_game of
      Exited \<Rightarrow> False
    | Running (m', r') \<Rightarrow> state m' = STATE_PLAYING \<and> e_x (player m') = 95)"
  using player_position_clamped [where model = moving_game and dt = "1 / 60" and r = quiet_rng] moving_game_facts
  by (auto simp: game_constants split: outcome.splits)

subsection \<open>The end of a level\<close>

lemma scan_enemies_slots: "fst (scan_enemies dt dir es) = map (explode_tick dt) es"
  by (induction es) (auto simp: explode_tick_def Let_def split: prod.splits)

lemma scan_enemies_count:
  "fst (snd (scan_enemies dt dir es)) =
     int (length (filter (\<lambda>e. e_active e \<and> \<not> e_exploding e) es))"
  by (induction es) (auto simp: Let_def split: prod.splits)

lemma explode_tick_inactive: "\<not> e_active e \<Longrightarrow> explode_tick dt e = e"
  by (simp add: explode_tick_def)

lemma scan_enemies_spare:
  "list_all (\<lambda>e. \<not> e_active e) (drop k es) \<Longrightarrow>
   drop k (fst (scan_enemies dt dir es)) = drop k es"
  by (simp add: scan_enemies_slots drop_map list_all_iff explode_tick_inactive cong: map_cong)

lemma direction_frame [simp]:
  "direction_enemies (update_timers dt m) = direction_enemies m"
  "direction_enemies (update_player dt m) = direction_enemies m"
  "direction_enemies (fst (update_ufo dt r m)) = direction_enemies m"
  by (simp_all add: update_timers_def update_player_def update_ufo_def spawn_ufo_def Let_def
      split: prod.splits)

lemma before_level_check_enemies:
  "enemies (fst (fst (before_level_check dt r m))) = map (explode_tick dt) (enemies m)"
  "fst (snd (fst (before_level_check dt r m))) =
     int (length (filter (\<lambda>e. e_active e \<and> \<not> e_exploding e) (enemies m)))"
  "ufo (fst (fst (before_level_check dt r m))) =
     ufo (fst (update_ufo dt r (update_player dt (update_timers dt m))))"
  "sounds (fst (fst (before_level_check dt r m))) =
     sounds (fst (update_ufo dt r (update_player dt (update_timers dt m))))"
proof -
  obtain m2 r2 where u: "update_ufo dt r (update_player dt (update_timers dt m)) = (m2, r2)"
    by (cases "update_ufo dt r (update_player dt (update_timers dt m))")
  have e: "enemies m2 = enemies m"
    using update_ufo_frame(7) [of dt r "update_player dt (update_timers dt m)"] u by simp
  obtain es n t where sc: "scan_enemies dt (direction_enemies m2) (enemies m) = (es, n, t)"
    by (metis prod.exhaust)
  have es: "es = map (explode_tick dt) (enemies m)"
    using scan_enemies_slots [of dt "direction_enemies m2" "enemies m"] sc by simp
  have n: "n = int (length (filter (\<lambda>e. e_active e \<and> \<not> e_exploding e) (enemies m)))"
    using scan_enemies_count [of dt "direction_enemies m2" "enemies m"] sc by simp
  have b: "before_level_check dt r m = ((m2\<lparr>enemies := es\<rparr>, n, t), r2)"
    using u sc e by (simp add: before_level_check_def Let_def)
  show "enemies (fst (fst (before_level_check dt r m))) = map (explode_tick dt) (enemies m)"
    "fst (snd (fst (before_level_check dt r m))) =
       int (length (filter (\<lambda>e. e_active e \<and> \<not> e_exploding e) (enemies m)))"
    "ufo (fst (fst (before_level_check dt r m))) =
       ufo (fst (update_ufo dt r (update_player dt (update_timers dt m))))"
    "sounds (fst (fst (before_level_check dt r m))) =
       sounds (fst (update_ufo dt r (update_player dt (update_timers dt m))))"
    using b es n u by simp_all
qed

lemma length_formation: "length formation = 55"
  by (simp add: formation_def length_concat comp_def upt_rec)

lemma formation_active: "list_all e_active formation"
  by (simp add: formation_def list_all_iff formation_enemy_def)

lemma formation_nth:
  "row < 5 \<Longrightarrow> col < 11 \<Longrightarrow> formation ! (11 * row + col) = formation_enemy row col"
proof -
  assume a: "row < 5" "col < 11"
  have rows: "[0..<5] = [0, 1, 2, 3, 4 :: nat]" by (simp add: upt_rec)
  have "row \<in> {0, 1, 2, 3, 4}" using a(1) by auto
  then show ?thesis
    using a(2) by (auto simp: formation_def rows nth_append)
qed

lemma next_level_enemies:
  "enemies (next_level m) = formation @ drop 55 (enemies m)"
  "play_level_up (sounds (next_level m))"
  by (simp_all add: next_level_def init_enemies_def)

lemma enemy_points_top: "enemy_points e \<le> enemy_points (formation_enemy 0 col)"
  by (simp add: enemy_points_def formation_enemy_def)

lemma level_cleared_iff:
  "level_cleared dt r m \<longleftrightarrow>
     length (filter (\<lambda>e. e_active e \<and> \<not> e_exploding e) (enemies m)) = 0 \<and>
     \<not> u_active (ufo (fst (update_ufo dt r (update_player dt (update_timers dt m)))))"
proof -
  obtain m3 n t r2 where b: "before_level_check dt r m = ((m3, n, t), r2)"
    by (metis prod.exhaust)
  have "n = int (length (filter (\<lambda>e. e_active e \<and> \<not> e_exploding e) (enemies m)))"
    "ufo m3 = ufo (fst (update_ufo dt r (update_player dt (update_timers dt m))))"
    using before_level_check_enemies [of dt r m] b by simp_all
  then show ?thesis
    using b by (simp add: level_cleared_def)
qed

lemma playing_step_cleared:
  assumes "level_cleared dt r m"
  shows "level (fst (playing_step dt r m)) = level m + 1"
    and "play_level_up (sounds (fst (playing_step dt r m)))"
    and "enemies (fst (playing_step dt r m)) =
           formation @ drop 55 (map (explode_tick dt) (enemies m))"
proof -
  obtain m3 n t r2 where b: "before_level_check dt r m = ((m3, n, t), r2)"
    by (metis prod.exhaust)
  have c: "n = 0 \<and> \<not> u_active (ufo m3)"
    using assms b by (simp add: level_cleared_def)
  have m3: "level m3 = level m" "enemies m3 = map (explode_tick dt) (enemies m)"
    using before_level_check_frame(3) [of dt r m] before_level_check_enemies(1) [of dt r m] b
    by simp_all
  have p: "fst (playing_step dt r m) = next_level m3"
    using b c by (simp add: playing_step_def)
  show "level (fst (playing_step dt r m)) = level m + 1"
    "play_level_up (sounds (fst (playing_step dt r m)))"
    "enemies (fst (playing_step dt r m)) =
           formation @ drop 55 (map (explode_tick dt) (enemies m))"
    using m3 by (simp_all add: p next_level_enemies)
qed

lemma playing_step_not_cleared:
  assumes "\<not> level_cleared dt r m"
  shows "level (fst (playing_step dt r m)) = level m"
proof -
  obtain m3 n t r2 where b: "before_level_check dt r m = ((m3, n, t), r2)"
    by (metis prod.exhaust)
  have c: "\<not> (n = 0 \<and> \<not> u_active (ufo m3))"
    using assms b by (simp add: level_cleared_def)
  have m3: "level m3 = level m"
    using before_level_check_frame(3) [of dt r m] b by simp
  have "fst (playing_step dt r m) = fst (after_level_check dt t r2 m3)"
    using b c by (auto simp: playing_step_def)
  then show ?thesis
    using after_level_check_hit [of dt t r2 m3] m3 by simp
qed

lemma filter_formation:
  assumes "list_all (\<lambda>e. \<not> e_active e) spare"
  shows "filter e_active (formation @ spare) = formation"
proof -
  have "filter e_active formation = formation"
    using formation_active by (simp add: list_all_iff)
  moreover have "filter e_active spare = []"
    using assms by (simp add: list_all_iff)
  ultimately show ?thesis by simp
qed

lemma spare_slots_after_tick:
  assumes "list_all (\<lambda>e. \<not> e_active e) (drop 55 es)"
  shows "drop 55 (map (explode_tick dt) es) = drop 55 es"
  using assms
  by (simp add: drop_map list_all_iff explode_tick_inactive cong: map_cong)

lemma spare_slots_free_cong:
  "map e_active (enemies m') = map e_active (enemies m) \<Longrightarrow>
   spare_slots_free m' = spare_slots_free m"
proof -
  assume a: "map e_active (enemies m') = map e_active (enemies m)"
  have l: "length (enemies m') = length (enemies m)"
    using a by (metis length_map)
  have "map e_active (drop 55 (enemies m')) = map e_active (drop 55 (enemies m))"
    using a by (simp add: drop_map [symmetric])
  then have "list_all (\<lambda>e. \<not> e_active e) (drop 55 (enemies m')) =
             list_all (\<lambda>e. \<not> e_active e) (drop 55 (enemies m))"
    by (metis (mono_tags, lifting) list.pred_map comp_def list.pred_cong)
  with l show ?thesis by (simp add: spare_slots_free_def)
qed

lemma hit_enemies_active:
  "hit_enemies b es = Some (es', pts) \<Longrightarrow> map e_active es' = map e_active es"
  by (induction es arbitrary: es') (auto split: if_splits)

lemma bullet_vs_targets_active:
  "map e_active (enemies (snd (bullet_vs_targets b m))) = map e_active (enemies m)"
  by (auto simp: bullet_vs_targets_def hit_enemies_active split: option.splits)

lemma bullet_vs_player_enemies: "enemies (snd (bullet_vs_player b m)) = enemies m"
  by (simp add: bullet_vs_player_def Let_def)

lemma bullet_step_active:
  "map e_active (enemies (snd (bullet_step dt b m))) = map e_active (enemies m)"
proof -
  let ?m' = "snd (bullet_step dt b m)"
  consider (idle) "?m' = m"
    | (shield) "?m' = m\<lparr>shields := shields ?m'\<rparr>"
    | (targets) "?m' = snd (bullet_vs_targets (move_bullet dt b) m)"
    | (player) "?m' = snd (bullet_vs_player (move_bullet dt b) m)"
    using bullet_step_snd [of dt b m] by blast
  then show ?thesis
  proof cases
    case idle
    then show ?thesis by simp
  next
    case shield
    have "enemies (m\<lparr>shields := shields ?m'\<rparr>) = enemies m" by simp
    then show ?thesis using shield by simp
  next
    case targets
    then show ?thesis by (simp add: bullet_vs_targets_active)
  next
    case player
    then show ?thesis by (simp add: bullet_vs_player_enemies)
  qed
qed

lemma bullets_loop_active:
  "map e_active (enemies (snd (bullets_loop dt bs m))) = map e_active (enemies m)"
proof (induction bs arbitrary: m)
  case Nil
  then show ?case by simp
next
  case (Cons b bs)
  obtain b' m1 where s: "bullet_step dt b m = (b', m1)" by (cases "bullet_step dt b m")
  obtain bs' m2 where l: "bullets_loop dt bs m1 = (bs', m2)" by (cases "bullets_loop dt bs m1")
  have "map e_active (enemies m1) = map e_active (enemies m)"
    using bullet_step_active [of dt b m] s by simp
  moreover have "map e_active (enemies m2) = map e_active (enemies m1)"
    using Cons.IH [of m1] l by simp
  ultimately show ?case using s l by simp
qed

lemma move_enemies_active:
  "map e_active (enemies (move_enemies dt t m)) = map e_active (enemies m)"
  by (simp add: move_enemies_def Let_def comp_def cong: map_cong)

lemma after_level_check_active:
  "map e_active (enemies (fst (after_level_check dt t r m))) = map e_active (enemies m)"
proof -
  obtain m5 r5 where f: "enemy_fire r (move_enemies dt t m) = (m5, r5)"
    by (cases "enemy_fire r (move_enemies dt t m)")
  obtain bs m6 where l: "bullets_loop dt (bullets m5) m5 = (bs, m6)"
    by (cases "bullets_loop dt (bullets m5) m5")
  have "enemies m5 = enemies (move_enemies dt t m)"
    using enemy_fire_frame(7) [of r "move_enemies dt t m"] f by simp
  then have "map e_active (enemies m5) = map e_active (enemies m)"
    by (simp add: move_enemies_active)
  moreover have "map e_active (enemies m6) = map e_active (enemies m5)"
    using bullets_loop_active [of dt "bullets m5" m5] l by simp
  ultimately show ?thesis
    using f l by (simp add: after_level_check_def Let_def)
qed

lemma spare_slots_tick:
  assumes "length es = MAX_ENEMIES" and "list_all (\<lambda>e. \<not> e_active e) (drop 55 es)"
  shows "length (map (explode_tick dt) es) = MAX_ENEMIES"
    and "list_all (\<lambda>e. \<not> e_active e) (drop 55 (map (explode_tick dt) es))"
  using assms spare_slots_after_tick [of es dt] by simp_all

lemma playing_step_spare:
  assumes "spare_slots_free m"
  shows "spare_slots_free (fst (playing_step dt r m))"
proof -
  obtain m3 n t r2 where b: "before_level_check dt r m = ((m3, n, t), r2)"
    by (metis prod.exhaust)
  have e3: "enemies m3 = map (explode_tick dt) (enemies m)"
    using before_level_check_enemies(1) [of dt r m] b by simp
  have s3: "spare_slots_free m3"
    using assms spare_slots_tick [of "enemies m" dt] by (simp add: spare_slots_free_def e3)
  show ?thesis
  proof (cases "n = 0 \<and> \<not> u_active (ufo m3)")
    case True
    then have p: "fst (playing_step dt r m) = next_level m3"
      using b by (simp add: playing_step_def)
    show ?thesis
      using s3 by (simp add: p spare_slots_free_def next_level_enemies length_formation
          MAX_ENEMIES_def)
  next
    case False
    then have p: "fst (playing_step dt r m) = fst (after_level_check dt t r2 m3)"
      using b by (auto simp: playing_step_def)
    show ?thesis
      using s3 spare_slots_free_cong [OF after_level_check_active [of dt t r2 m3]]
      by (simp add: p)
  qed
qed

lemma model_update_spare:
  assumes "spare_slots_free m"
  shows "case model_update dt r m of Exited \<Rightarrow> True
         | Running (m', r') \<Rightarrow> spare_slots_free m'"
proof -
  obtain m1 r1 where s: "playing_step dt r m = (m1, r1)" by (cases "playing_step dt r m")
  have "spare_slots_free m1" using playing_step_spare [OF assms, of dt r] s by simp
  then show ?thesis
    using assms s by (simp add: model_update_def Let_def spare_slots_free_def)
qed

lemma init_enemies_spare:
  "length (enemies m) = MAX_ENEMIES \<Longrightarrow> list_all (\<lambda>e. \<not> e_active e) (drop 55 (enemies m)) \<Longrightarrow>
   spare_slots_free (init_enemies m)"
  by (simp add: spare_slots_free_def init_enemies_def length_formation MAX_ENEMIES_def)

lemma model_init_spare: "spare_slots_free model_init"
  by (simp add: model_init_def init_shields_def init_enemies_def zero_model_def
      spare_slots_free_def length_formation MAX_ENEMIES_def list_all_iff zero_entity_def)

lemma reset_game_spare: "spare_slots_free m \<Longrightarrow> spare_slots_free (reset_game m)"
  by (simp add: reset_game_def init_shields_def init_enemies_def
      spare_slots_free_def length_formation MAX_ENEMIES_def Let_def)

lemma cleared_game_facts:
  "state cleared_game = STATE_PLAYING" "level cleared_game = 1"
  "spare_slots_free cleared_game"
  "length (filter (\<lambda>e. e_active e \<and> \<not> e_exploding e) (enemies cleared_game)) = 0"
  "\<not> u_active (ufo (fst (update_ufo (1 / 60) quiet_rng
        (update_player (1 / 60) (update_timers (1 / 60) cleared_game)))))"
  by code_simp+

lemma new_game_facts:
  "state (reset_game model_init) = STATE_PLAYING" "level (reset_game model_init) = 1"
  "length (filter (\<lambda>e. e_active e \<and> \<not> e_exploding e) (enemies (reset_game model_init))) = 55"
  by code_simp+

lemma formation_enemy_explicit:
  "formation_enemy row col =
     \<lparr>e_x = 5 + 6 * real col, e_y = 7 + 5 * real row,
      e_width = 4, e_height = 3, e_dx = 0, e_dy = 0, e_active = True,
      e_type = (if row = 0 then ENTITY_ENEMY_TYPE_3
                else if row < 3 then ENTITY_ENEMY_TYPE_2
                else ENTITY_ENEMY_TYPE_1),
      e_shoot_timer = 0, e_anim_timer = 0, e_anim_frame = 0,
      e_exploding = False, e_explode_timer = 0\<rparr>"
  by (simp add: formation_enemy_def zero_entity_def ENEMY_WIDTH_def ENEMY_HEIGHT_def)

lemma formation_enemy_points:
  "enemy_points (formation_enemy row col) = (if row = 0 then 30 else if row < 3 then 20 else 10)"
  by (simp add: formation_enemy_def enemy_points_def)

lemma playing_step_cleared_wave:
  assumes "level_cleared dt r m"
  shows "enemy_speed_mult (fst (playing_step dt r m)) = 1 \<and>
         direction_enemies (fst (playing_step dt r m)) = 1 \<and>
         drop_direction (fst (playing_step dt r m)) = 1 \<and>
         drop_step_count (fst (playing_step dt r m)) = 0 \<and>
         \<not> u_active (ufo (fst (playing_step dt r m))) \<and>
         \<not> u_hasSpawnedThisLevel (ufo (fst (playing_step dt r m))) \<and>
         u_y (ufo (fst (playing_step dt r m))) = 4"
proof -
  obtain m3 n t r2 where b: "before_level_check dt r m = ((m3, n, t), r2)"
    by (metis prod.exhaust)
  have c: "n = 0 \<and> \<not> u_active (ufo m3)"
    using assms b by (simp add: level_cleared_def)
  have p: "fst (playing_step dt r m) = next_level m3"
    using b c by (simp add: playing_step_def)
  show ?thesis
    by (simp add: p next_level_def init_enemies_def)
qed

text \<open>
  C4. In a step in \<open>STATE_PLAYING\<close> the level changes if and only if the step finds the
  level cleared: no enemy is active and not exploding, and the flyer is inactive after
  its own update in this step. Then the level grows by exactly 1, the flag
  \<open>play_level_up\<close> is raised and the slots 0 to 54 hold the formation of 5 rows of 11
  columns. Slot \<open>11 row + col\<close> is, field by field, an active enemy of width 4 and
  height 3 at \<open>x = 5 + 6 col\<close>, \<open>y = 7 + 5 row\<close>, at rest, with every timer and the
  explosion cleared; it is of type 3 in row 0, of type 2 in rows 1 and 2 and of type 1
  in rows 3 and 4, worth 30, 20 and 10 points, and no enemy is worth more than 30. The
  wave starts again at speed factor 1, moving right, and the flyer is inactive, at
  height 4, and has not yet appeared in the new level. The five spare slots of the 60
  are free in \<^verbatim>\<open>model_init\<close> and stay free over a step; when they are free, exactly 55
  enemies are active after the transition.
\<close>

theorem level_transition:
  assumes "state model = STATE_PLAYING"
  shows "(level_cleared dt r model \<longleftrightarrow>
            length (filter (\<lambda>e. e_active e \<and> \<not> e_exploding e) (enemies model)) = 0 \<and>
            \<not> u_active (ufo (fst (update_ufo dt r (update_player dt (update_timers dt model)))))) \<and>
         (case model_update dt r model of
            Exited \<Rightarrow> False
          | Running (model', r') \<Rightarrow>
              (level model' \<noteq> level model \<longleftrightarrow> level_cleared dt r model) \<and>
              (\<not> level_cleared dt r model \<longrightarrow> level model' = level model) \<and>
              (level_cleared dt r model \<longrightarrow>
                 level model' = level model + 1 \<and> play_level_up (sounds model') \<and>
                 take 55 (enemies model') = formation \<and>
                 (\<forall>row < 5. \<forall>col < 11.
                    enemies model' ! (11 * row + col) =
                      \<lparr>e_x = 5 + 6 * real col, e_y = 7 + 5 * real row,
                       e_width = 4, e_height = 3, e_dx = 0, e_dy = 0, e_active = True,
                       e_type = (if row = 0 then ENTITY_ENEMY_TYPE_3
                                 else if row < 3 then ENTITY_ENEMY_TYPE_2
                                 else ENTITY_ENEMY_TYPE_1),
                       e_shoot_timer = 0, e_anim_timer = 0, e_anim_frame = 0,
                       e_exploding = False, e_explode_timer = 0\<rparr> \<and>
                    enemy_points (enemies model' ! (11 * row + col)) =
                      (if row = 0 then 30 else if row < 3 then 20 else 10)) \<and>
                 enemy_speed_mult model' = 1 \<and> direction_enemies model' = 1 \<and>
                 drop_direction model' = 1 \<and> drop_step_count model' = 0 \<and>
                 \<not> u_active (ufo model') \<and> \<not> u_hasSpawnedThisLevel (ufo model') \<and>
                 u_y (ufo model') = 4 \<and>
                 (spare_slots_free model \<longrightarrow>
                    length (enemies model') = MAX_ENEMIES \<and>
                    length (filter e_active (enemies model')) = 55)) \<and>
              (spare_slots_free model \<longrightarrow> spare_slots_free model')) \<and>
         spare_slots_free model_init \<and>
         length formation = 5 * 11 \<and> list_all e_active formation \<and>
         (\<forall>row < 5. \<forall>col < 11.
            formation ! (11 * row + col) = formation_enemy row col \<and>
            e_type (formation_enemy 0 col) = ENTITY_ENEMY_TYPE_3 \<and>
            (\<forall>e. enemy_points e \<le> enemy_points (formation_enemy 0 col))) \<and>
         (\<forall>e. enemy_points e =
                (if e_type e = ENTITY_ENEMY_TYPE_1 then 10
                 else if e_type e = ENTITY_ENEMY_TYPE_2 then 20 else 30))"
proof (intro conjI)
  show "level_cleared dt r model \<longleftrightarrow>
            length (filter (\<lambda>e. e_active e \<and> \<not> e_exploding e) (enemies model)) = 0 \<and>
            \<not> u_active (ufo (fst (update_ufo dt r (update_player dt (update_timers dt model)))))"
    by (rule level_cleared_iff)
  obtain m1 r1 where s: "playing_step dt r model = (m1, r1)"
    by (cases "playing_step dt r model")
  have "(level m1 \<noteq> level model \<longleftrightarrow> level_cleared dt r model) \<and>
        (\<not> level_cleared dt r model \<longrightarrow> level m1 = level model) \<and>
        (level_cleared dt r model \<longrightarrow>
           level m1 = level model + 1 \<and> play_level_up (sounds m1) \<and>
           take 55 (enemies m1) = formation \<and>
           (\<forall>row < 5. \<forall>col < 11.
                    enemies m1 ! (11 * row + col) =
                      \<lparr>e_x = 5 + 6 * real col, e_y = 7 + 5 * real row,
                       e_width = 4, e_height = 3, e_dx = 0, e_dy = 0, e_active = True,
                       e_type = (if row = 0 then ENTITY_ENEMY_TYPE_3
                                 else if row < 3 then ENTITY_ENEMY_TYPE_2
                                 else ENTITY_ENEMY_TYPE_1),
                       e_shoot_timer = 0, e_anim_timer = 0, e_anim_frame = 0,
                       e_exploding = False, e_explode_timer = 0\<rparr> \<and>
                    enemy_points (enemies m1 ! (11 * row + col)) =
                      (if row = 0 then 30 else if row < 3 then 20 else 10)) \<and>
                 enemy_speed_mult m1 = 1 \<and> direction_enemies m1 = 1 \<and>
                 drop_direction m1 = 1 \<and> drop_step_count m1 = 0 \<and>
                 \<not> u_active (ufo m1) \<and> \<not> u_hasSpawnedThisLevel (ufo m1) \<and>
                 u_y (ufo m1) = 4 \<and>
                 (spare_slots_free model \<longrightarrow>
              length (enemies m1) = MAX_ENEMIES \<and>
              length (filter e_active (enemies m1)) = 55)) \<and>
        (spare_slots_free model \<longrightarrow> spare_slots_free m1)"
  proof -
    have keep: "spare_slots_free model \<longrightarrow> spare_slots_free m1"
      using playing_step_spare [of model dt r] s by simp
    show ?thesis
    proof (cases "level_cleared dt r model")
    case True
    note c = playing_step_cleared [OF True]
    have e: "enemies m1 = formation @ drop 55 (map (explode_tick dt) (enemies model))"
      using c(3) s by simp
    have t: "take 55 (enemies m1) = formation"
      by (simp add: e length_formation)
    have sp: "spare_slots_free model \<longrightarrow>
              length (enemies m1) = MAX_ENEMIES \<and>
              length (filter e_active (enemies m1)) = 55"
    proof
      assume "spare_slots_free model"
      then have a: "length (enemies model) = MAX_ENEMIES \<and>
            list_all (\<lambda>e. \<not> e_active e) (drop 55 (enemies model))"
        by (simp add: spare_slots_free_def)
      then have d: "drop 55 (map (explode_tick dt) (enemies model)) = drop 55 (enemies model)"
        by (simp add: spare_slots_after_tick)
      have "filter e_active (enemies m1) = formation"
        unfolding e d using a by (intro filter_formation) simp
      moreover have "length (enemies m1) = MAX_ENEMIES"
        unfolding e d using a by (simp add: length_formation MAX_ENEMIES_def)
      ultimately show "length (enemies m1) = MAX_ENEMIES \<and>
              length (filter e_active (enemies m1)) = 55"
        by (simp add: length_formation)
    qed
    have sl: "\<forall>row < 5. \<forall>col < 11.
                    enemies m1 ! (11 * row + col) =
                      \<lparr>e_x = 5 + 6 * real col, e_y = 7 + 5 * real row,
                       e_width = 4, e_height = 3, e_dx = 0, e_dy = 0, e_active = True,
                       e_type = (if row = 0 then ENTITY_ENEMY_TYPE_3
                                 else if row < 3 then ENTITY_ENEMY_TYPE_2
                                 else ENTITY_ENEMY_TYPE_1),
                       e_shoot_timer = 0, e_anim_timer = 0, e_anim_frame = 0,
                       e_exploding = False, e_explode_timer = 0\<rparr> \<and>
                    enemy_points (enemies m1 ! (11 * row + col)) =
                      (if row = 0 then 30 else if row < 3 then 20 else 10)"
    proof (intro allI impI)
      fix row col :: nat
      assume rc: "row < 5" "col < 11"
      then have "11 * row + col < length formation" by (simp add: length_formation)
      then have eq: "enemies m1 ! (11 * row + col) = formation_enemy row col"
        using rc by (simp add: e nth_append formation_nth)
      show "enemies m1 ! (11 * row + col) =
                      \<lparr>e_x = 5 + 6 * real col, e_y = 7 + 5 * real row,
                       e_width = 4, e_height = 3, e_dx = 0, e_dy = 0, e_active = True,
                       e_type = (if row = 0 then ENTITY_ENEMY_TYPE_3
                                 else if row < 3 then ENTITY_ENEMY_TYPE_2
                                 else ENTITY_ENEMY_TYPE_1),
                       e_shoot_timer = 0, e_anim_timer = 0, e_anim_frame = 0,
                       e_exploding = False, e_explode_timer = 0\<rparr> \<and>
                    enemy_points (enemies m1 ! (11 * row + col)) =
                      (if row = 0 then 30 else if row < 3 then 20 else 10)"
        unfolding eq
        by (intro conjI) (rule formation_enemy_explicit, rule formation_enemy_points)
    qed
    have grp: "enemy_speed_mult m1 = 1 \<and> direction_enemies m1 = 1 \<and>
                 drop_direction m1 = 1 \<and> drop_step_count m1 = 0 \<and>
                 \<not> u_active (ufo m1) \<and> \<not> u_hasSpawnedThisLevel (ufo m1) \<and>
                 u_y (ufo m1) = 4"
      using playing_step_cleared_wave [OF True] s by simp
    show ?thesis
      using True c(1,2) s t sp keep sl grp by (simp add: enemy_points_def)
  next
    case False
    then show ?thesis
      using playing_step_not_cleared [OF False] s keep by simp
  qed
  qed
  note stepped = this
  show "case model_update dt r model of
            Exited \<Rightarrow> False
          | Running (model', r') \<Rightarrow>
              (level model' \<noteq> level model \<longleftrightarrow> level_cleared dt r model) \<and>
              (\<not> level_cleared dt r model \<longrightarrow> level model' = level model) \<and>
              (level_cleared dt r model \<longrightarrow>
                 level model' = level model + 1 \<and> play_level_up (sounds model') \<and>
                 take 55 (enemies model') = formation \<and>
                 (\<forall>row < 5. \<forall>col < 11.
                    enemies model' ! (11 * row + col) =
                      \<lparr>e_x = 5 + 6 * real col, e_y = 7 + 5 * real row,
                       e_width = 4, e_height = 3, e_dx = 0, e_dy = 0, e_active = True,
                       e_type = (if row = 0 then ENTITY_ENEMY_TYPE_3
                                 else if row < 3 then ENTITY_ENEMY_TYPE_2
                                 else ENTITY_ENEMY_TYPE_1),
                       e_shoot_timer = 0, e_anim_timer = 0, e_anim_frame = 0,
                       e_exploding = False, e_explode_timer = 0\<rparr> \<and>
                    enemy_points (enemies model' ! (11 * row + col)) =
                      (if row = 0 then 30 else if row < 3 then 20 else 10)) \<and>
                 enemy_speed_mult model' = 1 \<and> direction_enemies model' = 1 \<and>
                 drop_direction model' = 1 \<and> drop_step_count model' = 0 \<and>
                 \<not> u_active (ufo model') \<and> \<not> u_hasSpawnedThisLevel (ufo model') \<and>
                 u_y (ufo model') = 4 \<and>
                 (spare_slots_free model \<longrightarrow>
                    length (enemies model') = MAX_ENEMIES \<and>
                    length (filter e_active (enemies model')) = 55)) \<and>
              (spare_slots_free model \<longrightarrow> spare_slots_free model')"
    unfolding model_update_playing [OF assms] s outcome.case prod.case by (rule stepped)
  show "\<forall>e. enemy_points e =
                (if e_type e = ENTITY_ENEMY_TYPE_1 then 10
                 else if e_type e = ENTITY_ENEMY_TYPE_2 then 20 else 30)"
    by (simp add: enemy_points_def)
  show "spare_slots_free model_init" by (rule model_init_spare)
  show "length formation = 5 * 11" by (simp add: length_formation)
  show "list_all e_active formation" by (rule formation_active)
  show "\<forall>row < 5. \<forall>col < 11.
            formation ! (11 * row + col) = formation_enemy row col \<and>
            e_type (formation_enemy 0 col) = ENTITY_ENEMY_TYPE_3 \<and>
            (\<forall>e. enemy_points e \<le> enemy_points (formation_enemy 0 col))"
    by (simp add: formation_nth enemy_points_top) (simp add: formation_enemy_def)
qed

theorem level_transition_witness:
  "state cleared_game = STATE_PLAYING \<and> level cleared_game = 1 \<and>
   spare_slots_free cleared_game \<and>
   level_cleared (1 / 60) quiet_rng cleared_game \<and>
   (case model_update (1 / 60) quiet_rng cleared_game of
      Exited \<Rightarrow> False
    | Running (m', r') \<Rightarrow>
        level m' = 2 \<and> take 55 (enemies m') = formation \<and>
        length (enemies m') = 60 \<and> length (filter e_active (enemies m')) = 55 \<and>
        spare_slots_free m' \<and>
        enemies m' ! 0 =
          \<lparr>e_x = 5, e_y = 7, e_width = 4, e_height = 3, e_dx = 0, e_dy = 0,
           e_active = True, e_type = ENTITY_ENEMY_TYPE_3, e_shoot_timer = 0,
           e_anim_timer = 0, e_anim_frame = 0, e_exploding = False, e_explode_timer = 0\<rparr> \<and>
        enemies m' ! 12 =
          \<lparr>e_x = 11, e_y = 12, e_width = 4, e_height = 3, e_dx = 0, e_dy = 0,
           e_active = True, e_type = ENTITY_ENEMY_TYPE_2, e_shoot_timer = 0,
           e_anim_timer = 0, e_anim_frame = 0, e_exploding = False, e_explode_timer = 0\<rparr> \<and>
        enemies m' ! 54 =
          \<lparr>e_x = 65, e_y = 27, e_width = 4, e_height = 3, e_dx = 0, e_dy = 0,
           e_active = True, e_type = ENTITY_ENEMY_TYPE_1, e_shoot_timer = 0,
           e_anim_timer = 0, e_anim_frame = 0, e_exploding = False, e_explode_timer = 0\<rparr>) \<and>
   state (reset_game model_init) = STATE_PLAYING \<and>
   \<not> level_cleared (1 / 60) quiet_rng (reset_game model_init) \<and>
   (case model_update (1 / 60) quiet_rng (reset_game model_init) of
      Exited \<Rightarrow> False
    | Running (m', r') \<Rightarrow> level m' = 1)"
proof -
  note t1 = level_transition [OF cleared_game_facts(1), where dt = "1 / 60" and r = quiet_rng]
  note t2 = level_transition [OF new_game_facts(1), where dt = "1 / 60" and r = quiet_rng]
  have c: "level_cleared (1 / 60) quiet_rng cleared_game"
    using t1 cleared_game_facts by simp
  have n: "\<not> level_cleared (1 / 60) quiet_rng (reset_game model_init)"
    using t2 new_game_facts by simp
  obtain m' r' where u: "model_update (1 / 60) quiet_rng cleared_game = Running (m', r')"
    using t1 by (cases "model_update (1 / 60) quiet_rng cleared_game") auto
  have f: "level m' = 2" "take 55 (enemies m') = formation" "length (enemies m') = 60"
    "length (filter e_active (enemies m')) = 55" "spare_slots_free m'"
    and slots: "\<forall>row < 5. \<forall>col < 11.
        enemies m' ! (11 * row + col) =
          \<lparr>e_x = 5 + 6 * real col, e_y = 7 + 5 * real row,
           e_width = 4, e_height = 3, e_dx = 0, e_dy = 0, e_active = True,
           e_type = (if row = 0 then ENTITY_ENEMY_TYPE_3
                     else if row < 3 then ENTITY_ENEMY_TYPE_2
                     else ENTITY_ENEMY_TYPE_1),
           e_shoot_timer = 0, e_anim_timer = 0, e_anim_frame = 0,
           e_exploding = False, e_explode_timer = 0\<rparr> \<and>
        enemy_points (enemies m' ! (11 * row + col)) =
          (if row = 0 then 30 else if row < 3 then 20 else 10)"
    using t1 u c cleared_game_facts by (simp_all add: MAX_ENEMIES_def enemy_points_def)
  have s0: "enemies m' ! 0 =
          \<lparr>e_x = 5, e_y = 7, e_width = 4, e_height = 3, e_dx = 0, e_dy = 0,
           e_active = True, e_type = ENTITY_ENEMY_TYPE_3, e_shoot_timer = 0,
           e_anim_timer = 0, e_anim_frame = 0, e_exploding = False, e_explode_timer = 0\<rparr>"
    using slots [rule_format, of 0 0] by simp
  have s12: "enemies m' ! 12 =
          \<lparr>e_x = 11, e_y = 12, e_width = 4, e_height = 3, e_dx = 0, e_dy = 0,
           e_active = True, e_type = ENTITY_ENEMY_TYPE_2, e_shoot_timer = 0,
           e_anim_timer = 0, e_anim_frame = 0, e_exploding = False, e_explode_timer = 0\<rparr>"
    using slots [rule_format, of 1 1] by simp
  have s54: "enemies m' ! 54 =
          \<lparr>e_x = 65, e_y = 27, e_width = 4, e_height = 3, e_dx = 0, e_dy = 0,
           e_active = True, e_type = ENTITY_ENEMY_TYPE_1, e_shoot_timer = 0,
           e_anim_timer = 0, e_anim_frame = 0, e_exploding = False, e_explode_timer = 0\<rparr>"
    using slots [rule_format, of 4 10] by simp
  obtain m2 r2 where u2: "model_update (1 / 60) quiet_rng (reset_game model_init) = Running (m2, r2)"
    using t2 by (cases "model_update (1 / 60) quiet_rng (reset_game model_init)") auto
  have l2: "level m2 = 1" using t2 u2 n new_game_facts by simp
  show ?thesis
    using cleared_game_facts new_game_facts c n u f s0 s12 s54 u2 l2 by simp
qed

end
